theory Spec2Isabelle
  imports Main
begin

section \<open>The supervision loop of ralph\_gui.py (class RalphLoopRunner)\<close>

text \<open>
  The runner of \<^verbatim>\<open>src/ralph_gui.py\<close> (lines 692-1155) drives an external agent through
  bounded attempts and reads the agent's progress from sentinel files. The embedding keeps
  the attributes of the class as the fields of one record, together with the parts of the
  surroundings the methods read or change: the files of the target folder, the templates
  beside the script, the platform, and the processes of the operating system. Everything
  another thread or process does while the loop sleeps is given as a script of ticks, one
  per call of \<^verbatim>\<open>time.sleep\<close>; a loop that still sleeps when the script ends has not
  returned, which is the value \<^verbatim>\<open>None\<close>.
\<close>

subsection \<open>Sentinel file names (class constants, lines 700-707)\<close>

definition PIN_SPEC :: string where "PIN_SPEC = ''RALPH-DESIGN.md''"
definition PLAN_FILE :: string where "PLAN_FILE = ''RALPH-PLAN.md''"
definition PROGRESS_FILE :: string where "PROGRESS_FILE = ''RALPH-PROGRESS.md''"
definition DONE_FILE :: string where "DONE_FILE = ''RALPH-COMPLETE.md''"
definition BLOCKED_FILE :: string where "BLOCKED_FILE = ''RALPH-BLOCKED.md''"
definition STOP_FILE :: string where "STOP_FILE = ''RALPH-STOP''"
definition CHECKPOINT_FILE :: string where "CHECKPOINT_FILE = ''RALPH-CHECKPOINT.md''"

text \<open>The template read by \<^verbatim>\<open>_build_prompt\<close> (line 937).\<close>

definition PROMPT_FILE :: string where "PROMPT_FILE = ''RALPH-PROMPT.md''"

subsection \<open>Data\<close>

text \<open>
  The source keeps the status as a string; these are the eight strings it assigns
  (lines 738, 849, 883, 1025-1154).
\<close>

datatype status =
  Pending | Running | Completed | Blocked | Stopped | Failed | Paused | MissingCheckpoint

text \<open>
  The exceptions the modelled methods raise or catch, each with the text that
  \<^verbatim>\<open>str(e)\<close> gives. The text of a RuntimeError is the argument of line 880. The text of
  the FileNotFoundError that \<^verbatim>\<open>open\<close> raises for a template is written by the Python
  runtime from the absolute path of the file; the model takes it from the surroundings
  (the field \<^verbatim>\<open>open_error\<close> below) and does not spell it out.
\<close>

datatype exn = RuntimeError string | FileNotFoundError string

fun str_exn :: "exn \<Rightarrow> string" where
  "str_exn (RuntimeError m) = m"
| "str_exn (FileNotFoundError m) = m"

text \<open>What \<^verbatim>\<open>subprocess.Popen\<close> does at line 980: a child with a process id, or one
  of the two handlers of lines 1010-1018.\<close>

datatype launch = Launched nat | LaunchNotFound | LaunchFailed

text \<open>
  What other threads and processes do during one \<^verbatim>\<open>time.sleep\<close>: the operator's
  commands (the public methods of the runner), a poll of the runner's status and waiting
  information by the controlling layer (\<^verbatim>\<open>get_runner_status\<close> and
  \<^verbatim>\<open>get_waiting_info\<close>, lines 1203-1234), files that appear or disappear in the
  target folder, and the end of a process with its return code.
\<close>

datatype action =
    OpStop | OpPause | OpResume | OpForceKill | OpContinue | OpStopMC
  | OpPoll
  | FsCreate string | FsDelete string
  | ProcExit nat int

type_synonym tick = "action list"

text \<open>
  The first sixteen fields are the attributes of \<^verbatim>\<open>__init__\<close> (lines 728-755) that
  the loop reads; the folder, model, log level and variant only build the command line.
  Then the surroundings: \<^verbatim>\<open>fs\<close> the names of the files in the target folder,
  \<^verbatim>\<open>templates\<close> the names of the files beside the script, \<^verbatim>\<open>open_error\<close> the
  message of the exception raised when the template of a name is not there (line 916),
  \<^verbatim>\<open>exited\<close> the return
  code of each process that has ended (a process with no entry runs),
  \<^verbatim>\<open>descendants\<close> the processes a process has spawned, directly or not,
  \<^verbatim>\<open>dies_on_terminate\<close> whether a process ends in time when asked to terminate,
  \<^verbatim>\<open>launcher\<close> the outcome of the n-th Popen, \<^verbatim>\<open>clock\<close> the time in tenths of a
  second. The last three fields only observe: the number of Popen calls, the waits entered,
  and what each poll of the controlling layer has read (the status, and the three values of
  \<^verbatim>\<open>get_waiting_info\<close>).
\<close>

record world =
  max_attempts :: int
  sleep_seconds :: int
  thread :: "bool option"
  stop_requested :: bool
  current_attempt :: int
  status :: status
  error_message :: "string option"
  current_process :: "nat option"
  is_waiting :: bool
  waiting_since :: "nat option"
  waiting_duration :: int
  waiting_reason :: string
  pause_requested :: bool
  is_paused :: bool
  missing_checkpoint_pause :: bool
  user_continue_decision :: "bool option"
  fs :: "string set"
  templates :: "string set"
  open_error :: "string \<Rightarrow> string"
  is_windows :: bool
  exited :: "nat \<Rightarrow> int option"
  descendants :: "nat \<Rightarrow> nat list"
  dies_on_terminate :: "nat \<Rightarrow> bool"
  launcher :: "nat \<Rightarrow> launch"
  clock :: nat
  invocations :: nat
  waits :: "(string \<times> int) list"
  seen :: "(status \<times> bool \<times> string \<times> int) list"

text \<open>The control outcome of a part of the loop body: go on, return from
  \<^verbatim>\<open>_run_loop\<close>, or an exception on its way to line 1152.\<close>

datatype flow = Next | Return | Raise exn

subsection \<open>The constructor and the operator's methods (lines 709-824, 887-889)\<close>

definition init :: "int \<Rightarrow> int \<Rightarrow> world \<Rightarrow> world" where
  "init m s env = env\<lparr>max_attempts := m, sleep_seconds := s, thread := None,
     stop_requested := False, current_attempt := 0, status := Pending,
     error_message := None, current_process := None, is_waiting := False,
     waiting_since := None, waiting_duration := 0, waiting_reason := [],
     pause_requested := False, is_paused := False, missing_checkpoint_pause := False,
     user_continue_decision := None\<rparr>"

definition continue_after_missing_checkpoint :: "world \<Rightarrow> world" where
  "continue_after_missing_checkpoint w =
     w\<lparr>user_continue_decision := Some True, missing_checkpoint_pause := False\<rparr>"

definition stop_after_missing_checkpoint :: "world \<Rightarrow> world" where
  "stop_after_missing_checkpoint w =
     w\<lparr>user_continue_decision := Some False, missing_checkpoint_pause := False\<rparr>"

definition pause :: "world \<Rightarrow> world" where
  "pause w = (if \<not> is_paused w then w\<lparr>pause_requested := True\<rparr> else w)"

definition resume :: "world \<Rightarrow> world" where
  "resume w = w\<lparr>is_paused := False, pause_requested := False\<rparr>"

definition stop :: "world \<Rightarrow> world" where
  "stop w = w\<lparr>stop_requested := True\<rparr>"

text \<open>
  The property of lines 782-789. The clock counts tenths of a second, and \<^verbatim>\<open>int\<close>
  cuts the elapsed seconds towards zero.
\<close>

definition waiting_seconds_remaining :: "world \<Rightarrow> int" where
  "waiting_seconds_remaining w =
     (case waiting_since w of
        None \<Rightarrow> 0
      | Some since \<Rightarrow>
          if \<not> is_waiting w then 0
          else
            (let e = int (clock w) - int since;
                 whole = (if 0 \<le> e then e div 10 else - ((- e) div 10))
             in max 0 (waiting_duration w - whole)))"

text \<open>\<^verbatim>\<open>RunningTask.get_waiting_info\<close> (lines 1226-1234) for a task with its runner.\<close>

definition get_waiting_info :: "world \<Rightarrow> bool \<times> string \<times> int" where
  "get_waiting_info w = (is_waiting w, waiting_reason w, waiting_seconds_remaining w)"

subsection \<open>Processes\<close>

text \<open>
  A process that runs ends with a return code; one that has ended keeps its code.
  \<^verbatim>\<open>Popen.terminate\<close> asks the direct child to end (on Windows it ends it),
  \<^verbatim>\<open>Popen.kill\<close> ends the direct child, \<^verbatim>\<open>taskkill /T /F\<close> ends the process
  and its descendants, and \<^verbatim>\<open>Popen.wait(timeout)\<close> returns when the child has ended
  and raises TimeoutExpired otherwise.
\<close>

definition os_end :: "nat \<Rightarrow> int \<Rightarrow> world \<Rightarrow> world" where
  "os_end p rc w = (if exited w p = None then w\<lparr>exited := (exited w)(p \<mapsto> rc)\<rparr> else w)"

definition terminate :: "nat \<Rightarrow> world \<Rightarrow> world" where
  "terminate p w =
     (if is_windows w then os_end p 1 w
      else if dies_on_terminate w p then os_end p (- 15) w
      else w)"

definition kill :: "nat \<Rightarrow> world \<Rightarrow> world" where
  "kill p w = os_end p (if is_windows w then 1 else - 9) w"

definition taskkill_tree :: "nat \<Rightarrow> world \<Rightarrow> world" where
  "taskkill_tree p w = fold (\<lambda>q. os_end q 1) (p # descendants w p) w"

definition wait_returns :: "nat \<Rightarrow> world \<Rightarrow> bool" where
  "wait_returns p w = (exited w p \<noteq> None)"

subsection \<open>force\_kill (lines 826-849)\<close>

definition force_kill :: "world \<Rightarrow> world" where
  "force_kill w0 =
     (let w1 = w0\<lparr>stop_requested := True\<rparr>;
          w2 = (case current_process w1 of
                  None \<Rightarrow> w1
                | Some pid \<Rightarrow>
                    (let w3 = (if is_windows w1 then taskkill_tree pid w1
                               else terminate pid w1);
                         w4 = (if wait_returns pid w3 then w3 else kill pid w3)
                     in w4\<lparr>current_process := None\<rparr>))
      in w2\<lparr>is_waiting := False, is_paused := False, status := Stopped\<rparr>)"

subsection \<open>Sleeping\<close>

fun apply_action :: "action \<Rightarrow> world \<Rightarrow> world" where
  "apply_action OpStop w = stop w"
| "apply_action OpPause w = pause w"
| "apply_action OpResume w = resume w"
| "apply_action OpForceKill w = force_kill w"
| "apply_action OpContinue w = continue_after_missing_checkpoint w"
| "apply_action OpStopMC w = stop_after_missing_checkpoint w"
| "apply_action OpPoll w = w\<lparr>seen := seen w @ [(status w, get_waiting_info w)]\<rparr>"
| "apply_action (FsCreate f) w = w\<lparr>fs := insert f (fs w)\<rparr>"
| "apply_action (FsDelete f) w = w\<lparr>fs := fs w - {f}\<rparr>"
| "apply_action (ProcExit p rc) w = os_end p rc w"

text \<open>One \<^verbatim>\<open>time.sleep\<close> of \<^verbatim>\<open>dt\<close> tenths of a second, during which the
  actions of the tick happen in order.\<close>

definition sleep :: "nat \<Rightarrow> tick \<Rightarrow> world \<Rightarrow> world" where
  "sleep dt t w = fold apply_action t (w\<lparr>clock := clock w + dt\<rparr>)"

text \<open>\<^verbatim>\<open>while cond: time.sleep(dt)\<close> (lines 1050-1051 and 1129-1130).\<close>

fun sleep_while :: "(world \<Rightarrow> bool) \<Rightarrow> nat \<Rightarrow> tick list \<Rightarrow> world \<Rightarrow> (world \<times> tick list) option"
where
  "sleep_while c dt [] w = (if c w then None else Some (w, []))"
| "sleep_while c dt (t # ts) w =
     (if c w then sleep_while c dt ts (sleep dt t w) else Some (w, t # ts))"

subsection \<open>Waiting (lines 851-875)\<close>

definition set_waiting :: "string \<Rightarrow> int \<Rightarrow> world \<Rightarrow> world" where
  "set_waiting reason duration w =
     w\<lparr>is_waiting := True, waiting_since := Some (clock w),
       waiting_duration := duration, waiting_reason := reason\<rparr>"

definition clear_waiting :: "world \<Rightarrow> world" where
  "clear_waiting w =
     w\<lparr>is_waiting := False, waiting_since := None, waiting_duration := 0,
       waiting_reason := []\<rparr>"

text \<open>
  The loop of lines 870-873. The source adds 0.5 to \<^verbatim>\<open>elapsed\<close> after each sleep of
  half a second; \<^verbatim>\<open>k\<close> counts these halves, so \<^verbatim>\<open>elapsed < duration\<close> is
  \<^verbatim>\<open>k < 2 * duration\<close>.
\<close>

fun wait_loop :: "int \<Rightarrow> int \<Rightarrow> tick list \<Rightarrow> world \<Rightarrow> (world \<times> tick list) option" where
  "wait_loop k duration [] w =
     (if k < 2 * duration \<and> \<not> stop_requested w then None else Some (w, []))"
| "wait_loop k duration (t # ts) w =
     (if k < 2 * duration \<and> \<not> stop_requested w
      then wait_loop (k + 1) duration ts (sleep 5 t w)
      else Some (w, t # ts))"

definition wait_with_state ::
  "string \<Rightarrow> int \<Rightarrow> tick list \<Rightarrow> world \<Rightarrow> (world \<times> tick list) option" where
  "wait_with_state reason duration ts w =
     (case wait_loop 0 duration ts
             (set_waiting reason duration (w\<lparr>waits := waits w @ [(reason, duration)]\<rparr>)) of
        None \<Rightarrow> None
      | Some (w', ts') \<Rightarrow> Some (clear_waiting w', ts'))"

subsection \<open>start (lines 877-885)\<close>

definition start :: "world \<Rightarrow> exn + world" where
  "start w =
     (if thread w = Some True then Inl (RuntimeError ''Runner is already running'')
      else Inr (w\<lparr>stop_requested := False, status := Running, thread := Some True\<rparr>))"

subsection \<open>Files (lines 895-933)\<close>

definition file_exists :: "string \<Rightarrow> world \<Rightarrow> bool" where
  "file_exists f w = (f \<in> fs w)"

definition remove_file :: "string \<Rightarrow> world \<Rightarrow> world" where
  "remove_file f w = (if f \<in> fs w then w\<lparr>fs := fs w - {f}\<rparr> else w)"

text \<open>\<^verbatim>\<open>_scaffold_plan_file\<close> and \<^verbatim>\<open>_scaffold_progress_file\<close>: the file is
  written from the template of the same name, and reading a template that is not there
  raises.\<close>

definition scaffold :: "string \<Rightarrow> world \<Rightarrow> exn + world" where
  "scaffold f w =
     (if \<not> file_exists f w
      then (if f \<in> templates w then Inr (w\<lparr>fs := insert f (fs w)\<rparr>)
            else Inl (FileNotFoundError (open_error w f)))
      else Inr w)"

subsection \<open>Invoking the agent (lines 939-1018)\<close>

text \<open>
  The loop of lines 987-999 with what follows it. A handle that another thread has set
  to None makes \<^verbatim>\<open>poll\<close> raise, which line 1015 catches.
\<close>

fun poll_loop :: "tick list \<Rightarrow> world \<Rightarrow> (bool \<times> world \<times> tick list) option" where
  "poll_loop [] w =
     (case current_process w of
        None \<Rightarrow> Some (False, w\<lparr>current_process := None\<rparr>, [])
      | Some pid \<Rightarrow>
          (case exited w pid of
             Some rc \<Rightarrow> Some (rc = 0, w\<lparr>current_process := None\<rparr>, [])
           | None \<Rightarrow>
               if stop_requested w
               then (let w1 = terminate pid w;
                         w2 = (if wait_returns pid w1 then w1 else kill pid w1)
                     in Some (False, w2, []))
               else None))"
| "poll_loop (t # ts) w =
     (case current_process w of
        None \<Rightarrow> Some (False, w\<lparr>current_process := None\<rparr>, t # ts)
      | Some pid \<Rightarrow>
          (case exited w pid of
             Some rc \<Rightarrow> Some (rc = 0, w\<lparr>current_process := None\<rparr>, t # ts)
           | None \<Rightarrow>
               if stop_requested w
               then (let w1 = terminate pid w;
                         w2 = (if wait_returns pid w1 then w1 else kill pid w1)
                     in Some (False, w2, t # ts))
               else poll_loop ts (sleep 2 t w)))"

definition invoke_opencode ::
  "tick list \<Rightarrow> world \<Rightarrow> ((exn + bool) \<times> world \<times> tick list) option" where
  "invoke_opencode ts w =
     (if PROMPT_FILE \<notin> templates w
      then Some (Inl (FileNotFoundError (open_error w PROMPT_FILE)), w, ts)
      else
        (case launcher w (invocations w) of
           LaunchNotFound \<Rightarrow>
             Some (Inr False,
                   w\<lparr>invocations := invocations w + 1,
                     error_message := Some ''opencode command not found'',
                     current_process := None\<rparr>, ts)
         | LaunchFailed \<Rightarrow>
             Some (Inr False,
                   w\<lparr>invocations := invocations w + 1, current_process := None\<rparr>, ts)
         | Launched pid \<Rightarrow>
             (case poll_loop ts
                     (w\<lparr>invocations := invocations w + 1, current_process := Some pid,
                        exited := (exited w)(pid := None)\<rparr>) of
                None \<Rightarrow> None
              | Some (ok, w', ts') \<Rightarrow> Some (Inr ok, w', ts'))))"

subsection \<open>The loop (lines 1020-1155)\<close>

text \<open>Sequencing: the rest of the body runs only when the part before it went on.\<close>

definition then_next ::
  "(flow \<times> world \<times> tick list) option \<Rightarrow>
   (tick list \<Rightarrow> world \<Rightarrow> (flow \<times> world \<times> tick list) option) \<Rightarrow>
   (flow \<times> world \<times> tick list) option" where
  "then_next r k =
     (case r of
        None \<Rightarrow> None
      | Some (f, w, ts) \<Rightarrow>
          (case f of Next \<Rightarrow> k ts w | Return \<Rightarrow> Some (Return, w, ts)
           | Raise e \<Rightarrow> Some (Raise e, w, ts)))"

text \<open>\<^verbatim>\<open>_wait_with_state(...)\<close> followed by \<^verbatim>\<open>continue\<close>.\<close>

definition wait_then_continue ::
  "string \<Rightarrow> tick list \<Rightarrow> world \<Rightarrow> (flow \<times> world \<times> tick list) option" where
  "wait_then_continue reason ts w =
     (case wait_with_state reason (sleep_seconds w) ts w of
        None \<Rightarrow> None
      | Some (w', ts') \<Rightarrow> Some (Next, w', ts'))"

text \<open>Lines 1045-1057.\<close>

definition pause_boundary :: "tick list \<Rightarrow> world \<Rightarrow> (flow \<times> world \<times> tick list) option" where
  "pause_boundary ts w =
     (if pause_requested w
      then (case sleep_while (\<lambda>v. is_paused v \<and> \<not> stop_requested v) 5 ts
                   (w\<lparr>is_paused := True, pause_requested := False, status := Paused\<rparr>) of
              None \<Rightarrow> None
            | Some (w', ts') \<Rightarrow>
                if stop_requested w' then Some (Return, w'\<lparr>status := Stopped\<rparr>, ts')
                else Some (Next, w'\<lparr>status := Running\<rparr>, ts'))
      else Some (Next, w, ts))"

text \<open>Lines 1065-1081, and again lines 1097-1113: the done file, then the blocked file;
  \<^verbatim>\<open>None\<close> when neither is there.\<close>

definition terminal_check :: "world \<Rightarrow> world option" where
  "terminal_check w =
     (if file_exists DONE_FILE w
      then Some ((if file_exists CHECKPOINT_FILE w then remove_file CHECKPOINT_FILE w
                  else w)\<lparr>status := Completed\<rparr>)
      else if file_exists BLOCKED_FILE w
      then Some ((if file_exists CHECKPOINT_FILE w then remove_file CHECKPOINT_FILE w
                  else w)\<lparr>status := Blocked\<rparr>)
      else None)"

text \<open>Lines 1124-1126: the state in which the loop starts to wait for the operator.\<close>

definition enter_gate :: "world \<Rightarrow> world" where
  "enter_gate w = w\<lparr>missing_checkpoint_pause := True, status := MissingCheckpoint,
     user_continue_decision := None\<rparr>"

text \<open>Lines 1121-1145.\<close>

definition missing_checkpoint_gate ::
  "tick list \<Rightarrow> world \<Rightarrow> (flow \<times> world \<times> tick list) option" where
  "missing_checkpoint_gate ts w =
     (case sleep_while (\<lambda>v. missing_checkpoint_pause v \<and> \<not> stop_requested v) 5 ts
             (enter_gate w) of
        None \<Rightarrow> None
      | Some (w', ts') \<Rightarrow>
          if stop_requested w' then Some (Return, w'\<lparr>status := Stopped\<rparr>, ts')
          else if user_continue_decision w' = Some False
          then Some (Return, w'\<lparr>status := Stopped\<rparr>, ts')
          else wait_then_continue ''cooldown'' ts' (w'\<lparr>status := Running\<rparr>))"

text \<open>Lines 1096-1145: what the loop does after an invocation that returned True.\<close>

definition after_invoke :: "tick list \<Rightarrow> world \<Rightarrow> (flow \<times> world \<times> tick list) option" where
  "after_invoke ts w =
     (case terminal_check w of
        Some w' \<Rightarrow> Some (Return, w', ts)
      | None \<Rightarrow>
          if file_exists CHECKPOINT_FILE w
          then wait_then_continue ''checkpoint'' ts (remove_file CHECKPOINT_FILE w)
          else missing_checkpoint_gate ts w)"

text \<open>Lines 1090-1094 and on.\<close>

definition invoke_step :: "tick list \<Rightarrow> world \<Rightarrow> (flow \<times> world \<times> tick list) option" where
  "invoke_step ts w =
     (case invoke_opencode ts w of
        None \<Rightarrow> None
      | Some (r, w', ts') \<Rightarrow>
          (case r of
             Inl e \<Rightarrow> Some (Raise e, w', ts')
           | Inr ok \<Rightarrow>
               if \<not> ok then wait_then_continue ''backoff'' ts' w'
               else after_invoke ts' w'))"

text \<open>Lines 1059-1145: the body from the stop check on.\<close>

definition checks_and_invoke :: "tick list \<Rightarrow> world \<Rightarrow> (flow \<times> world \<times> tick list) option" where
  "checks_and_invoke ts w =
     (if stop_requested w \<or> file_exists STOP_FILE w
      then Some (Return, w\<lparr>status := Stopped\<rparr>, ts)
      else
        (case terminal_check w of
           Some w' \<Rightarrow> Some (Return, w', ts)
         | None \<Rightarrow>
             if file_exists CHECKPOINT_FILE w
             then wait_then_continue ''checkpoint'' ts (remove_file CHECKPOINT_FILE w)
             else invoke_step ts w))"

text \<open>One pass of the body of the \<^verbatim>\<open>for\<close> loop (lines 1041-1145).\<close>

definition attempt_body :: "int \<Rightarrow> tick list \<Rightarrow> world \<Rightarrow> (flow \<times> world \<times> tick list) option" where
  "attempt_body a ts w =
     then_next (pause_boundary ts (w\<lparr>current_attempt := a\<rparr>)) checks_and_invoke"

text \<open>\<^verbatim>\<open>for attempt in range(1, self.max_attempts + 1)\<close>: \<^verbatim>\<open>Next\<close> at the end
  says that the loop ran out of attempts.\<close>

fun for_attempts :: "int list \<Rightarrow> tick list \<Rightarrow> world \<Rightarrow> (flow \<times> world \<times> tick list) option" where
  "for_attempts [] ts w = Some (Next, w, ts)"
| "for_attempts (a # as) ts w =
     (case attempt_body a ts w of
        None \<Rightarrow> None
      | Some (f, w', ts') \<Rightarrow>
          (case f of Next \<Rightarrow> for_attempts as ts' w' | Return \<Rightarrow> Some (Return, w', ts')
           | Raise e \<Rightarrow> Some (Raise e, w', ts')))"

text \<open>Lines 1147-1150, and the handler of lines 1152-1155.\<close>

definition finish :: "(flow \<times> world \<times> tick list) option \<Rightarrow> (world \<times> tick list) option" where
  "finish r =
     (case r of
        None \<Rightarrow> None
      | Some (f, w, ts) \<Rightarrow>
          (case f of
             Next \<Rightarrow> Some (w\<lparr>status := Failed, error_message := Some ''Max attempts reached''\<rparr>, ts)
           | Return \<Rightarrow> Some (w, ts)
           | Raise e \<Rightarrow> Some (w\<lparr>status := Failed, error_message := Some (str_exn e)\<rparr>, ts)))"

text \<open>Lines 1030-1036: the scaffolds, then the done and blocked files of earlier runs
  are removed. An exception comes with the state in which it was raised: when the second
  scaffold fails, the first has already written its file.\<close>

definition prepare :: "world \<Rightarrow> (exn \<times> world) + world" where
  "prepare w =
     (case scaffold PLAN_FILE w of
        Inl e \<Rightarrow> Inl (e, w)
      | Inr w1 \<Rightarrow>
          (case scaffold PROGRESS_FILE w1 of
             Inl e \<Rightarrow> Inl (e, w1)
           | Inr w2 \<Rightarrow> Inr (remove_file BLOCKED_FILE (remove_file DONE_FILE w2))))"

definition run_loop :: "tick list \<Rightarrow> world \<Rightarrow> (world \<times> tick list) option" where
  "run_loop ts w =
     (if \<not> file_exists PIN_SPEC w
      then Some (w\<lparr>status := Failed, error_message := Some (''Missing '' @ PIN_SPEC)\<rparr>, ts)
      else
        (case prepare w of
           Inl (e, w') \<Rightarrow> finish (Some (Raise e, w', ts))
         | Inr w1 \<Rightarrow> finish (for_attempts [1..max_attempts w1] ts w1)))"

text \<open>The thread of line 884 runs the loop and is alive until the loop returns.\<close>

definition run_thread :: "tick list \<Rightarrow> world \<Rightarrow> (world \<times> tick list) option" where
  "run_thread ts w =
     (case run_loop ts w of
        None \<Rightarrow> None
      | Some (w', ts') \<Rightarrow> Some (w'\<lparr>thread := Some False\<rparr>, ts'))"

subsection \<open>Ticks that decide nothing\<close>

text \<open>
  The commands that end a wait at the missing-checkpoint gate are a stop request (also the
  one \<^verbatim>\<open>force_kill\<close> makes) and the two decisions. A tick is quiet when it holds
  none of them; files, processes, \<^verbatim>\<open>pause\<close> and \<^verbatim>\<open>resume\<close> are quiet.
\<close>

fun decisive :: "action \<Rightarrow> bool" where
  "decisive OpStop = True"
| "decisive OpForceKill = True"
| "decisive OpContinue = True"
| "decisive OpStopMC = True"
| "decisive a = False"

definition quiet :: "tick \<Rightarrow> bool" where
  "quiet t = list_all (\<lambda>a. \<not> decisive a) t"

text \<open>A tick is calm when it holds no stop request, neither \<^verbatim>\<open>stop\<close> nor
  \<^verbatim>\<open>force_kill\<close>: these are the commands that cut a wait short.\<close>

definition calm :: "tick \<Rightarrow> bool" where
  "calm t = list_all (\<lambda>a. a \<noteq> OpStop \<and> a \<noteq> OpForceKill) t"


subsection \<open>The runner as it shows itself during a wait\<close>

text \<open>
  What the fields of the waiting descriptor hold once a wait with a reason has been entered
  from a state (lines 851-856, called at line 867 with the configured delay): the flag is
  set, and the reason, the start and the duration are recorded. The theorems compare the
  states the loop passes through with this one, field by field.
\<close>

definition waiting_state :: "string \<Rightarrow> world \<Rightarrow> world" where
  "waiting_state r v =
     v\<lparr>waits := waits v @ [(r, sleep_seconds v)], is_waiting := True,
       waiting_since := Some (clock v), waiting_duration := sleep_seconds v,
       waiting_reason := r\<rparr>"

section \<open>Concrete runs\<close>

text \<open>
  A target folder that holds the design file, with the three templates beside the script
  in \<^verbatim>\<open>/opt/ralph\<close>, on a platform other than Windows, where every Popen starts process 7 and a process
  asked to terminate does so.
\<close>

definition env0 :: world where
  "env0 = \<lparr>max_attempts = 0, sleep_seconds = 0, thread = None, stop_requested = False,
     current_attempt = 0, status = Pending, error_message = None, current_process = None,
     is_waiting = False, waiting_since = None, waiting_duration = 0, waiting_reason = [],
     pause_requested = False, is_paused = False, missing_checkpoint_pause = False,
     user_continue_decision = None,
     fs = {PIN_SPEC}, templates = {PLAN_FILE, PROGRESS_FILE, PROMPT_FILE},
     open_error = (\<lambda>f. ''[Errno 2] No such file or directory: '' @
                        [CHR 0x27] @ ''/opt/ralph/'' @ f @ [CHR 0x27]),
     is_windows = False, exited = (\<lambda>p. None), descendants = (\<lambda>p. []),
     dies_on_terminate = (\<lambda>p. True), launcher = (\<lambda>n. Launched 7), clock = 0,
     invocations = 0, waits = [], seen = []\<rparr>"


text \<open>A runner whose child, process 1, has spawned process 2; the runner is waiting and
  paused at once only so that one input shows both flags cleared.\<close>

definition c8_posix :: world where
  "c8_posix = env0\<lparr>status := Running, thread := Some True, current_process := Some 1,
     descendants := (\<lambda>p. if p = 1 then [2] else []), is_waiting := True, is_paused := True\<rparr>"

definition c8_windows :: world where
  "c8_windows = c8_posix\<lparr>is_windows := True\<rparr>"


text \<open>A runner of three attempts after \<^verbatim>\<open>start\<close>.\<close>

definition c2_started :: world where
  "c2_started = (init 3 1 env0)\<lparr>stop_requested := False, status := Running, thread := Some True\<rparr>"

text \<open>A target folder without the design file, a runner of forty attempts made for it,
  and that runner after \<^verbatim>\<open>start\<close>.\<close>

definition c5_env :: world where
  "c5_env = env0\<lparr>fs := {PLAN_FILE, DONE_FILE}\<rparr>"

definition c5_started :: world where
  "c5_started = (init 40 2 c5_env)\<lparr>stop_requested := False, status := Running, thread := Some True\<rparr>"

text \<open>A target folder in which an earlier run has left the done and the blocked file; a
  runner of one attempt started there, and the same runner after lines 1030-1036.\<close>

definition c10_env :: world where
  "c10_env = env0\<lparr>fs := {PIN_SPEC, DONE_FILE, BLOCKED_FILE}\<rparr>"

definition c10_started :: world where
  "c10_started = (init 1 0 c10_env)\<lparr>stop_requested := False, status := Running, thread := Some True\<rparr>"

definition c10_prepared :: world where
  "c10_prepared = c10_started\<lparr>fs := {PIN_SPEC, PLAN_FILE, PROGRESS_FILE}\<rparr>"

text \<open>The started runner in a folder that holds the blocked file beside the checkpoint
  file, and in a folder that holds neither.\<close>

definition c1_pre :: world where
  "c1_pre = c2_started\<lparr>fs := {PIN_SPEC, PLAN_FILE, PROGRESS_FILE, BLOCKED_FILE, CHECKPOINT_FILE}\<rparr>"

definition c1_post :: world where
  "c1_post = c2_started\<lparr>fs := {PIN_SPEC, PLAN_FILE, PROGRESS_FILE}\<rparr>"

text \<open>The started runner in a folder that holds the checkpoint file.\<close>

definition c6_pre :: world where
  "c6_pre = c2_started\<lparr>fs := {PIN_SPEC, PLAN_FILE, PROGRESS_FILE, CHECKPOINT_FILE}\<rparr>"

text \<open>A started runner of two attempts and no delay whose every Popen fails, and a started
  runner of one attempt and a delay of two seconds in a folder with the checkpoint file.\<close>

definition c3_started :: world where
  "c3_started = c2_started\<lparr>max_attempts := 2, sleep_seconds := 0,
     launcher := (\<lambda>n. LaunchFailed)\<rparr>"

definition c4_started :: world where
  "c4_started = c6_pre\<lparr>max_attempts := 1, sleep_seconds := 2\<rparr>"

text \<open>The runner of two attempts run to its end, the design file removed, the same
  instance started again and run.\<close>

definition c5_second_run :: "(world \<times> tick list) option" where
  "c5_second_run =
     (case run_thread [] c3_started of
        None \<Rightarrow> None
      | Some (w, ts) \<Rightarrow>
          (case start (apply_action (FsDelete PIN_SPEC) w) of
             Inl e \<Rightarrow> None
           | Inr w1 \<Rightarrow> run_thread ts w1))"

text \<open>The started runner in the folder with neither file, with a delay of two seconds.\<close>

definition c6_post :: world where
  "c6_post = c1_post\<lparr>sleep_seconds := 2\<rparr>"

section \<open>Properties\<close>

subsection \<open>Unfolding sets\<close>

lemmas file_names = PIN_SPEC_def PLAN_FILE_def PROGRESS_FILE_def DONE_FILE_def
  BLOCKED_FILE_def STOP_FILE_def CHECKPOINT_FILE_def PROMPT_FILE_def

lemmas op_defs = init_def continue_after_missing_checkpoint_def
  stop_after_missing_checkpoint_def pause_def resume_def stop_def os_end_def terminate_def
  kill_def taskkill_tree_def wait_returns_def force_kill_def sleep_def set_waiting_def
  clear_waiting_def wait_with_state_def start_def file_exists_def remove_file_def
  scaffold_def

lemmas loop_defs = invoke_opencode_def then_next_def wait_then_continue_def
  pause_boundary_def terminal_check_def enter_gate_def missing_checkpoint_gate_def
  after_invoke_def
  invoke_step_def checks_and_invoke_def attempt_body_def finish_def prepare_def
  run_loop_def run_thread_def

lemmas run_simps = op_defs loop_defs file_names env0_def Let_def upto.simps


subsection \<open>File names\<close>

lemma names_distinct:
  "DONE_FILE \<noteq> CHECKPOINT_FILE" "BLOCKED_FILE \<noteq> CHECKPOINT_FILE"
  "DONE_FILE \<noteq> BLOCKED_FILE" "STOP_FILE \<noteq> CHECKPOINT_FILE"
  "STOP_FILE \<noteq> DONE_FILE" "STOP_FILE \<noteq> BLOCKED_FILE"
  "PIN_SPEC \<noteq> DONE_FILE" "PIN_SPEC \<noteq> BLOCKED_FILE" "PIN_SPEC \<noteq> CHECKPOINT_FILE"
  "PLAN_FILE \<noteq> DONE_FILE" "PLAN_FILE \<noteq> BLOCKED_FILE" "PLAN_FILE \<noteq> CHECKPOINT_FILE"
  "PROGRESS_FILE \<noteq> DONE_FILE" "PROGRESS_FILE \<noteq> BLOCKED_FILE"
  "PROGRESS_FILE \<noteq> CHECKPOINT_FILE" "PLAN_FILE \<noteq> PROGRESS_FILE"
  "PIN_SPEC \<noteq> PLAN_FILE" "PIN_SPEC \<noteq> PROGRESS_FILE" "PIN_SPEC \<noteq> STOP_FILE"
  by (simp_all add: file_names)


subsection \<open>Processes and force\_kill\<close>

text \<open>Ending processes changes the process table and nothing else.\<close>

lemma os_end_shape: "os_end p rc w = w\<lparr>exited := exited (os_end p rc w)\<rparr>"
  by (simp add: os_end_def)

lemma fold_os_end_shape:
  "fold (\<lambda>q. os_end q rc) qs w = w\<lparr>exited := exited (fold (\<lambda>q. os_end q rc) qs w)\<rparr>"
proof (induction qs arbitrary: w)
  case Nil
  show ?case by simp
next
  case (Cons q qs)
  have "fold (\<lambda>q. os_end q rc) (q # qs) w = fold (\<lambda>q. os_end q rc) qs (os_end q rc w)"
    by simp
  also have "\<dots> = (os_end q rc w)\<lparr>exited := exited (fold (\<lambda>q. os_end q rc) qs (os_end q rc w))\<rparr>"
    by (rule Cons.IH)
  also have "\<dots> = w\<lparr>exited := exited (fold (\<lambda>q. os_end q rc) qs (os_end q rc w))\<rparr>"
    by (simp add: os_end_def)
  finally show ?case by simp
qed

lemma taskkill_tree_shape: "taskkill_tree p w = w\<lparr>exited := exited (taskkill_tree p w)\<rparr>"
  unfolding taskkill_tree_def by (rule fold_os_end_shape)

lemma terminate_shape: "terminate p w = w\<lparr>exited := exited (terminate p w)\<rparr>"
  by (simp add: terminate_def os_end_def)

lemma kill_shape: "kill p w = w\<lparr>exited := exited (kill p w)\<rparr>"
  by (simp add: kill_def os_end_def)

lemma exited_update_shape:
  assumes "v = w\<lparr>exited := exited v\<rparr>"
  shows "v\<lparr>exited := E\<rparr> = w\<lparr>exited := E\<rparr>"
proof -
  have "v\<lparr>exited := E\<rparr> = (w\<lparr>exited := exited v\<rparr>)\<lparr>exited := E\<rparr>"
    by (rule arg_cong[where f = "\<lambda>x. x\<lparr>exited := E\<rparr>", OF assms])
  then show ?thesis by simp
qed

lemma kill_after_shape:
  assumes "v = w\<lparr>exited := exited v\<rparr>"
  shows "kill p v = w\<lparr>exited := exited (kill p v)\<rparr>"
proof -
  have "kill p v = v\<lparr>exited := exited (kill p v)\<rparr>" by (rule kill_shape)
  also have "\<dots> = w\<lparr>exited := exited (kill p v)\<rparr>" by (rule exited_update_shape[OF assms])
  finally show ?thesis .
qed

lemma end_child_shape:
  "(if wait_returns p (if c then taskkill_tree p w else terminate p w)
    then (if c then taskkill_tree p w else terminate p w)
    else kill p (if c then taskkill_tree p w else terminate p w)) =
   w\<lparr>exited := exited (if wait_returns p (if c then taskkill_tree p w else terminate p w)
    then (if c then taskkill_tree p w else terminate p w)
    else kill p (if c then taskkill_tree p w else terminate p w))\<rparr>"
proof -
  have s3: "(if c then taskkill_tree p w else terminate p w) =
      w\<lparr>exited := exited (if c then taskkill_tree p w else terminate p w)\<rparr>"
    using taskkill_tree_shape[of p w] terminate_shape[of p w] by (cases c) simp_all
  show ?thesis
    using s3 kill_after_shape[OF s3] by (cases "wait_returns p (if c then taskkill_tree p w else terminate p w)") simp_all
qed

lemma force_kill_shape:
  "force_kill w = w\<lparr>stop_requested := True, current_process := None, is_waiting := False,
     is_paused := False, status := Stopped, exited := exited (force_kill w)\<rparr>"
proof (cases "current_process w")
  case None
  then show ?thesis by (simp add: force_kill_def)
next
  case (Some pid)
  let ?w1 = "w\<lparr>stop_requested := True\<rparr>"
  let ?w4 = "(if wait_returns pid (if is_windows w then taskkill_tree pid ?w1 else terminate pid ?w1)
    then (if is_windows w then taskkill_tree pid ?w1 else terminate pid ?w1)
    else kill pid (if is_windows w then taskkill_tree pid ?w1 else terminate pid ?w1))"
  have fk: "force_kill w = ?w4\<lparr>current_process := None, is_waiting := False, is_paused := False, status := Stopped\<rparr>"
    using Some by (simp add: force_kill_def Let_def)
  have s4: "?w4 = ?w1\<lparr>exited := exited ?w4\<rparr>"
    by (rule end_child_shape)
  have e: "exited (force_kill w) = exited ?w4"
    by (subst fk) simp
  have "force_kill w = (?w1\<lparr>exited := exited ?w4\<rparr>)\<lparr>current_process := None, is_waiting := False, is_paused := False, status := Stopped\<rparr>"
    using fk s4 by simp
  then show ?thesis unfolding e by simp
qed

lemma force_kill_fields:
  "status (force_kill w) = Stopped" "stop_requested (force_kill w)"
  "current_process (force_kill w) = None" "\<not> is_waiting (force_kill w)"
  "\<not> is_paused (force_kill w)"
  "invocations (force_kill w) = invocations w" "waits (force_kill w) = waits w"
  "sleep_seconds (force_kill w) = sleep_seconds w"
  "error_message (force_kill w) = error_message w"
  "max_attempts (force_kill w) = max_attempts w"
  "fs (force_kill w) = fs w"
  "pause_requested (force_kill w) = pause_requested w"
  "missing_checkpoint_pause (force_kill w) = missing_checkpoint_pause w"
  "user_continue_decision (force_kill w) = user_continue_decision w"
  by (subst force_kill_shape, simp)+

lemma os_end_keeps: "exited w q \<noteq> None \<Longrightarrow> exited (os_end p rc w) q \<noteq> None"
  by (simp add: os_end_def)

lemma os_end_ends: "exited (os_end p rc w) p \<noteq> None"
  by (simp add: os_end_def)

lemma os_end_other: "q \<noteq> p \<Longrightarrow> exited (os_end p rc w) q = exited w q"
  by (simp add: os_end_def)

lemma fold_os_end_keeps:
  "exited w q \<noteq> None \<Longrightarrow> exited (fold (\<lambda>p. os_end p rc) ps w) q \<noteq> None"
  by (induction ps arbitrary: w) (simp_all add: os_end_keeps del: not_None_eq)

lemma fold_os_end_ends:
  "q \<in> set ps \<Longrightarrow> exited (fold (\<lambda>p. os_end p rc) ps w) q \<noteq> None"
proof (induction ps arbitrary: w)
  case Nil
  then show ?case by simp
next
  case (Cons p ps)
  show ?case
  proof (cases "q = p")
    case True
    then show ?thesis using fold_os_end_keeps[OF os_end_ends[of p rc w], of rc ps]
      by (simp del: not_None_eq)
  next
    case False
    then show ?thesis using Cons by (simp del: not_None_eq)
  qed
qed

lemma taskkill_tree_ends:
  "q = p \<or> q \<in> set (descendants w p) \<Longrightarrow> exited (taskkill_tree p w) q \<noteq> None"
  unfolding taskkill_tree_def by (rule fold_os_end_ends) auto

lemma kill_ends: "exited (kill p w) p \<noteq> None"
  by (simp add: kill_def os_end_ends)

lemma kill_other: "q \<noteq> p \<Longrightarrow> exited (kill p w) q = exited w q"
  by (simp add: kill_def os_end_other)

lemma kill_keeps: "exited w q \<noteq> None \<Longrightarrow> exited (kill p w) q \<noteq> None"
  by (simp add: kill_def os_end_keeps)

lemma terminate_other: "q \<noteq> p \<Longrightarrow> exited (terminate p w) q = exited w q"
  by (simp add: terminate_def os_end_other)

lemma end_child_ends:
  "exited (if wait_returns p v then v else kill p v) p \<noteq> None"
  by (simp add: wait_returns_def kill_ends del: not_None_eq)

lemma force_kill_exited:
  assumes "current_process w = Some pid"
  shows "exited (force_kill w) =
     exited (let w1 = w\<lparr>stop_requested := True\<rparr>;
                 w3 = (if is_windows w then taskkill_tree pid w1 else terminate pid w1)
             in if wait_returns pid w3 then w3 else kill pid w3)"
  using assms by (simp add: force_kill_def Let_def)

subsection \<open>Starting, and the files at the start of the loop\<close>

lemma run_loop_no_spec:
  "\<not> file_exists PIN_SPEC w \<Longrightarrow>
   run_loop ts w =
     Some (w\<lparr>status := Failed, error_message := Some ''Missing RALPH-DESIGN.md''\<rparr>, ts)"
  by (simp add: run_loop_def PIN_SPEC_def)

lemma start_cases:
  "start w = (if thread w = Some True then Inl (RuntimeError ''Runner is already running'')
              else Inr (w\<lparr>stop_requested := False, status := Running, thread := Some True\<rparr>))"
  by (simp add: start_def)

lemma run_thread_dead: "run_thread ts w = Some (w', ts') \<Longrightarrow> thread w' = Some False"
  by (auto simp: run_thread_def split: option.splits)

lemma remove_file_eq: "remove_file f w = w\<lparr>fs := fs w - {f}\<rparr>"
  by (simp add: remove_file_def)

lemma scaffold_eq:
  "scaffold f w =
     (if f \<notin> fs w \<and> f \<notin> templates w then Inl (FileNotFoundError (open_error w f))
      else Inr (w\<lparr>fs := insert f (fs w)\<rparr>))"
  by (simp add: scaffold_def file_exists_def insert_absorb)

lemma plan_progress_distinct: "PROGRESS_FILE \<noteq> PLAN_FILE"
  by (simp add: file_names)

lemma prepare_cases:
  "prepare w =
     (if PLAN_FILE \<notin> fs w \<and> PLAN_FILE \<notin> templates w
      then Inl (FileNotFoundError (open_error w PLAN_FILE), w)
      else if PROGRESS_FILE \<notin> fs w \<and> PROGRESS_FILE \<notin> templates w
      then Inl (FileNotFoundError (open_error w PROGRESS_FILE),
                w\<lparr>fs := insert PLAN_FILE (fs w)\<rparr>)
      else Inr (w\<lparr>fs := (fs w \<union> {PLAN_FILE, PROGRESS_FILE}) - {DONE_FILE, BLOCKED_FILE}\<rparr>))"
proof -
  have s: "insert PROGRESS_FILE (insert PLAN_FILE (fs w)) - {DONE_FILE} - {BLOCKED_FILE} =
      (fs w \<union> {PLAN_FILE, PROGRESS_FILE}) - {DONE_FILE, BLOCKED_FILE}"
    by blast
  show ?thesis
    by (simp add: prepare_def scaffold_eq remove_file_eq plan_progress_distinct s)
qed

subsection \<open>The way through one attempt\<close>

lemma pause_boundary_skip: "\<not> pause_requested w \<Longrightarrow> pause_boundary ts w = Some (Next, w, ts)"
  by (simp add: pause_boundary_def)

lemma attempt_body_reach:
  "pause_boundary ts (w\<lparr>current_attempt := a\<rparr>) = Some (Next, v, ts') \<Longrightarrow>
   attempt_body a ts w = checks_and_invoke ts' v"
  by (simp add: attempt_body_def then_next_def)

lemma terminal_check_none:
  "\<not> file_exists DONE_FILE w \<Longrightarrow> \<not> file_exists BLOCKED_FILE w \<Longrightarrow> terminal_check w = None"
  by (simp add: terminal_check_def)

lemma checks_pass:
  "\<not> stop_requested w \<Longrightarrow> \<not> file_exists STOP_FILE w \<Longrightarrow> \<not> file_exists DONE_FILE w \<Longrightarrow>
   \<not> file_exists BLOCKED_FILE w \<Longrightarrow>
   checks_and_invoke ts w =
     (if file_exists CHECKPOINT_FILE w
      then wait_then_continue ''checkpoint'' ts (remove_file CHECKPOINT_FILE w)
      else invoke_step ts w)"
  by (simp add: checks_and_invoke_def terminal_check_none)

lemma stale_removed_same_prepare:
  assumes "prepare w = Inr w1"
  shows "prepare (w\<lparr>fs := fs w - {DONE_FILE, BLOCKED_FILE}\<rparr>) = Inr w1"
proof -
  have n: "PLAN_FILE \<noteq> DONE_FILE" "PLAN_FILE \<noteq> BLOCKED_FILE"
    "PROGRESS_FILE \<noteq> DONE_FILE" "PROGRESS_FILE \<noteq> BLOCKED_FILE"
    by (simp_all add: file_names)
  have s: "insert PLAN_FILE (insert PROGRESS_FILE (fs w - {DONE_FILE, BLOCKED_FILE})) -
        {DONE_FILE, BLOCKED_FILE}
      = insert PLAN_FILE (insert PROGRESS_FILE (fs w)) - {DONE_FILE, BLOCKED_FILE}"
    by blast
  show ?thesis
    using assms by (auto simp: prepare_cases n s split: if_splits)
qed

subsection \<open>What sleeping, waiting and polling leave alone\<close>

lemma apply_action_frame:
  "invocations (apply_action a w) = invocations w \<and> waits (apply_action a w) = waits w \<and>
   sleep_seconds (apply_action a w) = sleep_seconds w \<and>
   error_message (apply_action a w) = error_message w \<and>
   max_attempts (apply_action a w) = max_attempts w"
  by (cases a)
    (simp_all add: stop_def pause_def resume_def continue_after_missing_checkpoint_def
      stop_after_missing_checkpoint_def force_kill_fields os_end_def)

lemma fold_actions_frame:
  "invocations (fold apply_action t w) = invocations w \<and>
   waits (fold apply_action t w) = waits w \<and>
   sleep_seconds (fold apply_action t w) = sleep_seconds w \<and>
   error_message (fold apply_action t w) = error_message w \<and>
   max_attempts (fold apply_action t w) = max_attempts w"
  by (induction t arbitrary: w) (simp_all add: apply_action_frame)

lemma sleep_frame:
  "invocations (sleep dt t w) = invocations w" "waits (sleep dt t w) = waits w"
  "sleep_seconds (sleep dt t w) = sleep_seconds w"
  "error_message (sleep dt t w) = error_message w"
  "max_attempts (sleep dt t w) = max_attempts w"
  using fold_actions_frame[of t "w\<lparr>clock := clock w + dt\<rparr>"] by (simp_all add: sleep_def)

lemma wait_loop_frame:
  "wait_loop k d ts w = Some (w', ts') \<Longrightarrow>
   invocations w' = invocations w \<and> waits w' = waits w \<and>
   sleep_seconds w' = sleep_seconds w \<and> error_message w' = error_message w \<and>
   max_attempts w' = max_attempts w"
proof (induction ts arbitrary: k w)
  case Nil
  then show ?case by (simp split: if_splits)
next
  case (Cons t ts)
  show ?case
  proof (cases "k < 2 * d \<and> \<not> stop_requested w")
    case True
    then have "wait_loop (k + 1) d ts (sleep 5 t w) = Some (w', ts')"
      using Cons.prems by simp
    from Cons.IH[OF this] show ?thesis by (simp add: sleep_frame)
  next
    case False
    then show ?thesis using Cons.prems by auto
  qed
qed

lemma wait_loop_returns:
  "nat (2 * d - k) \<le> length ts \<Longrightarrow> \<exists>w' ts'. wait_loop k d ts w = Some (w', ts')"
proof (induction ts arbitrary: k w)
  case Nil
  then show ?case by simp
next
  case (Cons t ts)
  show ?case
  proof (cases "k < 2 * d \<and> \<not> stop_requested w")
    case True
    then have "nat (2 * d - (k + 1)) \<le> length ts" using Cons.prems by simp
    from Cons.IH[OF this, of "sleep 5 t w"] show ?thesis using True by simp
  next
    case False
    then show ?thesis by auto
  qed
qed

lemma wait_loop_stopped: "stop_requested w \<Longrightarrow> wait_loop k d ts w = Some (w, ts)"
  by (cases ts) simp_all

lemma wait_loop_stop_in_tick:
  "k < 2 * d \<Longrightarrow> \<not> stop_requested w \<Longrightarrow> stop_requested (sleep 5 t w) \<Longrightarrow>
   wait_loop k d (t # ts) w = Some (sleep 5 t w, ts)"
  by (simp add: wait_loop_stopped)

lemma wait_with_state_frame:
  assumes "wait_with_state r d ts w = Some (w', ts')"
  shows "invocations w' = invocations w \<and> waits w' = waits w @ [(r, d)] \<and>
    sleep_seconds w' = sleep_seconds w \<and> error_message w' = error_message w \<and>
    max_attempts w' = max_attempts w \<and> \<not> is_waiting w' \<and> waiting_reason w' = []"
proof -
  obtain v where v: "wait_loop 0 d ts (set_waiting r d (w\<lparr>waits := waits w @ [(r, d)]\<rparr>)) = Some (v, ts')"
      and w': "w' = clear_waiting v"
    using assms by (auto simp: wait_with_state_def split: option.splits)
  from wait_loop_frame[OF v] show ?thesis
    by (simp add: w' clear_waiting_def set_waiting_def)
qed

lemma wait_with_state_returns:
  "nat (2 * d) \<le> length ts \<Longrightarrow> \<exists>w' ts'. wait_with_state r d ts w = Some (w', ts')"
  using wait_loop_returns[of d 0 ts "set_waiting r d (w\<lparr>waits := waits w @ [(r, d)]\<rparr>)"]
  by (auto simp: wait_with_state_def)

lemma wait_then_continue_frame:
  assumes "wait_then_continue r ts w = Some (f, w', ts')"
  shows "f = Next \<and> invocations w' = invocations w \<and>
    waits w' = waits w @ [(r, sleep_seconds w)] \<and>
    sleep_seconds w' = sleep_seconds w \<and> error_message w' = error_message w \<and>
    max_attempts w' = max_attempts w \<and> \<not> is_waiting w'"
proof -
  have "wait_with_state r (sleep_seconds w) ts w = Some (w', ts')" and "f = Next"
    using assms by (auto simp: wait_then_continue_def split: option.splits)
  with wait_with_state_frame[of r "sleep_seconds w" ts w w' ts'] show ?thesis by simp
qed

lemma wait_then_continue_returns:
  "nat (2 * sleep_seconds w) \<le> length ts \<Longrightarrow> wait_then_continue r ts w \<noteq> None"
  using wait_with_state_returns[of "sleep_seconds w" ts r w]
  by (auto simp: wait_then_continue_def)

lemma poll_loop_frame:
  "poll_loop ts w = Some (ok, w', ts') \<Longrightarrow>
   invocations w' = invocations w \<and> waits w' = waits w \<and>
   sleep_seconds w' = sleep_seconds w \<and> error_message w' = error_message w \<and>
   max_attempts w' = max_attempts w"
proof (induction ts arbitrary: w)
  case Nil
  then show ?case
    by (auto simp: Let_def terminate_def kill_def os_end_def split: option.splits if_splits)
next
  case (Cons t ts)
  show ?case
  proof (cases "\<exists>pid. current_process w = Some pid \<and> exited w pid = None \<and> \<not> stop_requested w")
    case True
    then have "poll_loop ts (sleep 2 t w) = Some (ok, w', ts')"
      using Cons.prems by auto
    from Cons.IH[OF this] show ?thesis by (simp add: sleep_frame)
  next
    case False
    then show ?thesis
      using Cons.prems
      by (auto simp: Let_def terminate_def kill_def os_end_def split: option.splits if_splits)
  qed
qed

lemma invoke_opencode_frame:
  assumes "invoke_opencode ts w = Some (Inr ok, w', ts')"
  shows "invocations w' = invocations w + 1 \<and> waits w' = waits w \<and>
    sleep_seconds w' = sleep_seconds w \<and> max_attempts w' = max_attempts w"
proof (cases "launcher w (invocations w)")
  case (Launched pid)
  then have "poll_loop ts (w\<lparr>invocations := invocations w + 1, current_process := Some pid,
                        exited := (exited w)(pid := None)\<rparr>) = Some (ok, w', ts')"
    using assms by (auto simp: invoke_opencode_def split: if_splits option.splits)
  from poll_loop_frame[OF this] show ?thesis by simp
next
  case LaunchNotFound
  then show ?thesis using assms by (auto simp: invoke_opencode_def split: if_splits)
next
  case LaunchFailed
  then show ?thesis using assms by (auto simp: invoke_opencode_def split: if_splits)
qed

lemma attempt_to_invoke:
  assumes "pause_boundary ts0 (w0\<lparr>current_attempt := a\<rparr>) = Some (Next, w, ts)"
    and "\<not> stop_requested w" and "\<not> file_exists STOP_FILE w"
    and "\<not> file_exists DONE_FILE w" and "\<not> file_exists BLOCKED_FILE w"
    and "\<not> file_exists CHECKPOINT_FILE w"
  shows "attempt_body a ts0 w0 = invoke_step ts w"
  unfolding attempt_body_reach[OF assms(1)] checks_pass[OF assms(2-5)] using assms(6) by simp

lemma invoke_step_ok:
  "invoke_opencode ts w = Some (Inr True, w1, ts1) \<Longrightarrow> invoke_step ts w = after_invoke ts1 w1"
  by (simp add: invoke_step_def)

lemma terminal_check_found:
  assumes "file_exists DONE_FILE w \<or> file_exists BLOCKED_FILE w"
  shows "terminal_check w =
    Some (w\<lparr>fs := fs w - {CHECKPOINT_FILE},
            status := (if file_exists DONE_FILE w then Completed else Blocked)\<rparr>)"
proof -
  have "(if file_exists CHECKPOINT_FILE w then remove_file CHECKPOINT_FILE w else w) =
      w\<lparr>fs := fs w - {CHECKPOINT_FILE}\<rparr>"
    by (simp add: remove_file_eq file_exists_def)
  then show ?thesis
    using assms by (cases "file_exists DONE_FILE w") (simp_all add: terminal_check_def)
qed

subsection \<open>The missing-checkpoint gate\<close>

lemma quiet_action:
  "\<not> decisive a \<Longrightarrow>
   missing_checkpoint_pause (apply_action a w) = missing_checkpoint_pause w \<and>
   stop_requested (apply_action a w) = stop_requested w \<and>
   status (apply_action a w) = status w \<and>
   user_continue_decision (apply_action a w) = user_continue_decision w"
  by (cases a) (simp_all add: pause_def resume_def os_end_def)

lemma quiet_actions:
  "list_all (\<lambda>a. \<not> decisive a) t \<Longrightarrow>
   missing_checkpoint_pause (fold apply_action t w) = missing_checkpoint_pause w \<and>
   stop_requested (fold apply_action t w) = stop_requested w \<and>
   status (fold apply_action t w) = status w \<and>
   user_continue_decision (fold apply_action t w) = user_continue_decision w"
  by (induction t arbitrary: w) (simp_all add: quiet_action)

lemma quiet_sleep:
  assumes "quiet t"
  shows "missing_checkpoint_pause (sleep dt t w) = missing_checkpoint_pause w"
    "stop_requested (sleep dt t w) = stop_requested w"
    "status (sleep dt t w) = status w"
    "user_continue_decision (sleep dt t w) = user_continue_decision w"
  using quiet_actions[of t "w\<lparr>clock := clock w + dt\<rparr>"] assms
  by (simp_all add: sleep_def quiet_def)

lemma quiet_sleeps:
  "list_all quiet qs \<Longrightarrow>
   missing_checkpoint_pause (fold (sleep dt) qs w) = missing_checkpoint_pause w \<and>
   stop_requested (fold (sleep dt) qs w) = stop_requested w \<and>
   status (fold (sleep dt) qs w) = status w \<and>
   user_continue_decision (fold (sleep dt) qs w) = user_continue_decision w"
  by (induction qs arbitrary: w) (simp_all add: quiet_sleep)

lemma sleeps_frame:
  "invocations (fold (sleep dt) qs w) = invocations w \<and>
   waits (fold (sleep dt) qs w) = waits w \<and>
   sleep_seconds (fold (sleep dt) qs w) = sleep_seconds w"
  by (induction qs arbitrary: w) (simp_all add: sleep_frame)

lemma sleep_while_quiet:
  "list_all quiet qs \<Longrightarrow> missing_checkpoint_pause w \<Longrightarrow> \<not> stop_requested w \<Longrightarrow>
   sleep_while (\<lambda>v. missing_checkpoint_pause v \<and> \<not> stop_requested v) dt (qs @ rest) w =
   sleep_while (\<lambda>v. missing_checkpoint_pause v \<and> \<not> stop_requested v) dt rest
     (fold (sleep dt) qs w)"
  by (induction qs arbitrary: w) (simp_all add: quiet_sleep)

lemma sleep_while_blocked:
  "c w \<Longrightarrow> sleep_while c dt [] w = None"
  by simp

lemma sleep_while_one:
  "c w \<Longrightarrow> \<not> c (sleep dt t w) \<Longrightarrow> sleep_while c dt (t # rest) w = Some (sleep dt t w, rest)"
  by (cases rest) simp_all

lemma gate_state:
  assumes "list_all quiet qs" and "\<not> stop_requested w1"
  shows "status (fold (sleep 5) qs (enter_gate w1)) = MissingCheckpoint"
    "missing_checkpoint_pause (fold (sleep 5) qs (enter_gate w1))"
    "\<not> stop_requested (fold (sleep 5) qs (enter_gate w1))"
    "user_continue_decision (fold (sleep 5) qs (enter_gate w1)) = None"
  using quiet_sleeps[OF assms(1), of 5 "enter_gate w1"] assms(2)
  by (simp_all add: enter_gate_def)

lemma gate_split:
  assumes "list_all quiet qs" and "\<not> stop_requested w1"
  shows "sleep_while (\<lambda>v. missing_checkpoint_pause v \<and> \<not> stop_requested v) 5 (qs @ rest)
           (enter_gate w1) =
         sleep_while (\<lambda>v. missing_checkpoint_pause v \<and> \<not> stop_requested v) 5 rest
           (fold (sleep 5) qs (enter_gate w1))"
  by (rule sleep_while_quiet[OF assms(1)]) (simp_all add: enter_gate_def assms(2))

lemma gate_blocks:
  assumes "list_all quiet qs" and "\<not> stop_requested w1"
  shows "missing_checkpoint_gate qs w1 = None"
  using gate_split[OF assms, of "[]"] gate_state[OF assms]
  by (simp add: missing_checkpoint_gate_def)

lemma gate_stop_request:
  assumes "list_all quiet qs" and "\<not> stop_requested w1"
  shows "missing_checkpoint_gate (qs @ [OpStop] # rest) w1 =
    Some (Return, (stop ((fold (sleep 5) qs (enter_gate w1))
            \<lparr>clock := clock (fold (sleep 5) qs (enter_gate w1)) + 5\<rparr>))\<lparr>status := Stopped\<rparr>, rest)"
proof -
  let ?g = "fold (sleep 5) qs (enter_gate w1)"
  have s: "sleep 5 [OpStop] ?g = stop (?g\<lparr>clock := clock ?g + 5\<rparr>)"
    by (simp add: sleep_def)
  have "sleep_while (\<lambda>v. missing_checkpoint_pause v \<and> \<not> stop_requested v) 5 ([OpStop] # rest) ?g
      = Some (sleep 5 [OpStop] ?g, rest)"
    by (rule sleep_while_one) (simp_all add: gate_state[OF assms] s stop_def)
  then show ?thesis
    using gate_split[OF assms, of "[OpStop] # rest"] by (simp add: missing_checkpoint_gate_def s stop_def)
qed

lemma gate_stop_decision:
  assumes "list_all quiet qs" and "\<not> stop_requested w1"
  shows "missing_checkpoint_gate (qs @ [OpStopMC] # rest) w1 =
    Some (Return, (stop_after_missing_checkpoint ((fold (sleep 5) qs (enter_gate w1))
            \<lparr>clock := clock (fold (sleep 5) qs (enter_gate w1)) + 5\<rparr>))\<lparr>status := Stopped\<rparr>, rest)"
proof -
  let ?g = "fold (sleep 5) qs (enter_gate w1)"
  have s: "sleep 5 [OpStopMC] ?g = stop_after_missing_checkpoint (?g\<lparr>clock := clock ?g + 5\<rparr>)"
    by (simp add: sleep_def)
  have "sleep_while (\<lambda>v. missing_checkpoint_pause v \<and> \<not> stop_requested v) 5 ([OpStopMC] # rest) ?g
      = Some (sleep 5 [OpStopMC] ?g, rest)"
    by (rule sleep_while_one)
      (simp_all add: gate_state[OF assms] s stop_after_missing_checkpoint_def)
  then show ?thesis
    using gate_split[OF assms, of "[OpStopMC] # rest"] gate_state[OF assms]
    by (simp add: missing_checkpoint_gate_def s stop_after_missing_checkpoint_def)
qed

lemma gate_continue_decision:
  assumes "list_all quiet qs" and "\<not> stop_requested w1"
  shows "missing_checkpoint_gate (qs @ [OpContinue] # rest) w1 =
    wait_then_continue ''cooldown'' rest
      ((continue_after_missing_checkpoint ((fold (sleep 5) qs (enter_gate w1))
            \<lparr>clock := clock (fold (sleep 5) qs (enter_gate w1)) + 5\<rparr>))\<lparr>status := Running\<rparr>)"
proof -
  let ?g = "fold (sleep 5) qs (enter_gate w1)"
  have s: "sleep 5 [OpContinue] ?g = continue_after_missing_checkpoint (?g\<lparr>clock := clock ?g + 5\<rparr>)"
    by (simp add: sleep_def)
  have "sleep_while (\<lambda>v. missing_checkpoint_pause v \<and> \<not> stop_requested v) 5 ([OpContinue] # rest) ?g
      = Some (sleep 5 [OpContinue] ?g, rest)"
    by (rule sleep_while_one)
      (simp_all add: gate_state[OF assms] s continue_after_missing_checkpoint_def)
  then show ?thesis
    using gate_split[OF assms, of "[OpContinue] # rest"] gate_state[OF assms]
    by (simp add: missing_checkpoint_gate_def s continue_after_missing_checkpoint_def)
qed

lemma gate_stop_already:
  "stop_requested w1 \<Longrightarrow>
   missing_checkpoint_gate ts w1 = Some (Return, (enter_gate w1)\<lparr>status := Stopped\<rparr>, ts)"
  by (cases ts) (simp_all add: missing_checkpoint_gate_def enter_gate_def)

subsection \<open>The attempt counter, and a stop request at the start of an attempt\<close>

lemma attempt_action: "current_attempt (apply_action a w) = current_attempt w"
proof (cases a)
  case OpForceKill
  have "current_attempt (force_kill w) = current_attempt w"
    by (subst force_kill_shape) simp
  with OpForceKill show ?thesis by simp
qed (simp_all add: stop_def pause_def resume_def continue_after_missing_checkpoint_def
      stop_after_missing_checkpoint_def os_end_def)

lemma attempt_sleep: "current_attempt (sleep dt t w) = current_attempt w"
proof -
  have "current_attempt (fold apply_action t v) = current_attempt v" for v
    by (induction t arbitrary: v) (simp_all add: attempt_action)
  then show ?thesis by (simp add: sleep_def)
qed

lemma attempt_sleep_while:
  "sleep_while c dt ts w = Some (w', ts') \<Longrightarrow> current_attempt w' = current_attempt w"
proof (induction ts arbitrary: w)
  case Nil
  then show ?case by (simp split: if_splits)
next
  case (Cons t ts)
  show ?case
  proof (cases "c w")
    case True
    then have "sleep_while c dt ts (sleep dt t w) = Some (w', ts')" using Cons.prems by simp
    from Cons.IH[OF this] show ?thesis by (simp add: attempt_sleep)
  next
    case False
    then show ?thesis using Cons.prems by simp
  qed
qed

lemma attempt_wait_loop:
  "wait_loop k d ts w = Some (w', ts') \<Longrightarrow> current_attempt w' = current_attempt w"
proof (induction ts arbitrary: k w)
  case Nil
  then show ?case by (simp split: if_splits)
next
  case (Cons t ts)
  show ?case
  proof (cases "k < 2 * d \<and> \<not> stop_requested w")
    case True
    then have "wait_loop (k + 1) d ts (sleep 5 t w) = Some (w', ts')" using Cons.prems by simp
    from Cons.IH[OF this] show ?thesis by (simp add: attempt_sleep)
  next
    case False
    then show ?thesis using Cons.prems by auto
  qed
qed

lemma attempt_wait_then_continue:
  assumes "wait_then_continue r ts w = Some (f, w', ts')"
  shows "current_attempt w' = current_attempt w"
proof -
  obtain v where v: "wait_loop 0 (sleep_seconds w) ts
      (set_waiting r (sleep_seconds w) (w\<lparr>waits := waits w @ [(r, sleep_seconds w)]\<rparr>)) = Some (v, ts')"
    and w': "w' = clear_waiting v"
    using assms by (auto simp: wait_then_continue_def wait_with_state_def split: option.splits)
  from attempt_wait_loop[OF v] show ?thesis
    by (simp add: w' clear_waiting_def set_waiting_def)
qed

lemma attempt_poll_loop:
  "poll_loop ts w = Some (ok, w', ts') \<Longrightarrow> current_attempt w' = current_attempt w"
proof (induction ts arbitrary: w)
  case Nil
  then show ?case
    by (auto simp: Let_def terminate_def kill_def os_end_def split: option.splits if_splits)
next
  case (Cons t ts)
  show ?case
  proof (cases "\<exists>pid. current_process w = Some pid \<and> exited w pid = None \<and> \<not> stop_requested w")
    case True
    then have "poll_loop ts (sleep 2 t w) = Some (ok, w', ts')"
      using Cons.prems by auto
    from Cons.IH[OF this] show ?thesis by (simp add: attempt_sleep)
  next
    case False
    then show ?thesis
      using Cons.prems
      by (auto simp: Let_def terminate_def kill_def os_end_def split: option.splits if_splits)
  qed
qed

lemma attempt_invoke_opencode:
  assumes "invoke_opencode ts w = Some (r, w', ts')"
  shows "current_attempt w' = current_attempt w"
proof (cases "PROMPT_FILE \<in> templates w")
  case False
  then show ?thesis using assms by (simp add: invoke_opencode_def)
next
  case True
  show ?thesis
  proof (cases "launcher w (invocations w)")
    case (Launched pid)
    then obtain ok where "poll_loop ts (w\<lparr>invocations := invocations w + 1,
        current_process := Some pid, exited := (exited w)(pid := None)\<rparr>) = Some (ok, w', ts')"
      using assms True by (auto simp: invoke_opencode_def split: option.splits)
    from attempt_poll_loop[OF this] show ?thesis by simp
  next
    case LaunchNotFound
    then show ?thesis using assms True by (auto simp: invoke_opencode_def)
  next
    case LaunchFailed
    then show ?thesis using assms True by (auto simp: invoke_opencode_def)
  qed
qed

lemma attempt_pause_boundary:
  assumes "pause_boundary ts w = Some (f, w', ts')"
  shows "current_attempt w' = current_attempt w"
proof (cases "pause_requested w")
  case False
  then show ?thesis using assms by (simp add: pause_boundary_def)
next
  case True
  then obtain v where v: "sleep_while (\<lambda>v. is_paused v \<and> \<not> stop_requested v) 5 ts
      (w\<lparr>is_paused := True, pause_requested := False, status := Paused\<rparr>) = Some (v, ts')"
    and w': "w' = v\<lparr>status := Stopped\<rparr> \<or> w' = v\<lparr>status := Running\<rparr>"
    using assms by (auto simp: pause_boundary_def split: option.splits if_splits)
  from attempt_sleep_while[OF v] w' show ?thesis by auto
qed

lemma attempt_terminal_check:
  "terminal_check w = Some w' \<Longrightarrow> current_attempt w' = current_attempt w"
  by (auto simp: terminal_check_def remove_file_eq split: if_splits)

lemma attempt_gate:
  assumes "missing_checkpoint_gate ts w = Some (f, w', ts')"
  shows "current_attempt w' = current_attempt w"
proof -
  obtain v tv where v: "sleep_while (\<lambda>v. missing_checkpoint_pause v \<and> \<not> stop_requested v) 5 ts
      (enter_gate w) = Some (v, tv)"
    and w': "(w' = v\<lparr>status := Stopped\<rparr>) \<or>
      wait_then_continue ''cooldown'' tv (v\<lparr>status := Running\<rparr>) = Some (f, w', ts')"
    using assms by (auto simp: missing_checkpoint_gate_def split: option.splits if_splits)
  have "current_attempt v = current_attempt w"
    using attempt_sleep_while[OF v] by (simp add: enter_gate_def)
  then show ?thesis
    using w' attempt_wait_then_continue[of "''cooldown''" tv "v\<lparr>status := Running\<rparr>" f w' ts']
    by auto
qed

lemma attempt_after_invoke:
  assumes "after_invoke ts w = Some (f, w', ts')"
  shows "current_attempt w' = current_attempt w"
proof (cases "terminal_check w")
  case (Some v)
  then show ?thesis using assms attempt_terminal_check[OF Some] by (simp add: after_invoke_def)
next
  case None
  then show ?thesis
    using assms attempt_gate[of ts w f w' ts']
      attempt_wait_then_continue[of "''checkpoint''" ts "remove_file CHECKPOINT_FILE w" f w' ts']
    by (auto simp: after_invoke_def remove_file_eq split: if_splits)
qed

lemma attempt_invoke_step:
  assumes "invoke_step ts w = Some (f, w', ts')"
  shows "current_attempt w' = current_attempt w"
proof -
  obtain r v tv where i: "invoke_opencode ts w = Some (r, v, tv)"
    and k: "(\<exists>e. r = Inl e \<and> w' = v) \<or>
      (r = Inr False \<and> wait_then_continue ''backoff'' tv v = Some (f, w', ts')) \<or>
      (r = Inr True \<and> after_invoke tv v = Some (f, w', ts'))"
    using assms by (auto simp: invoke_step_def split: option.splits sum.splits if_splits)
  show ?thesis
    using k attempt_invoke_opencode[OF i] attempt_wait_then_continue[of "''backoff''" tv v f w' ts']
      attempt_after_invoke[of tv v f w' ts']
    by auto
qed

lemma attempt_checks:
  assumes "checks_and_invoke ts w = Some (f, w', ts')"
  shows "current_attempt w' = current_attempt w"
proof (cases "stop_requested w \<or> file_exists STOP_FILE w")
  case True
  then show ?thesis using assms by (auto simp: checks_and_invoke_def)
next
  case False
  show ?thesis
  proof (cases "terminal_check w")
    case (Some v)
    then show ?thesis
      using assms False attempt_terminal_check[OF Some] by (auto simp: checks_and_invoke_def)
  next
    case None
    then show ?thesis
      using assms False attempt_invoke_step[of ts w f w' ts']
        attempt_wait_then_continue[of "''checkpoint''" ts "remove_file CHECKPOINT_FILE w" f w' ts']
      by (auto simp: checks_and_invoke_def remove_file_eq split: if_splits)
  qed
qed

lemma attempt_body_counts:
  assumes "attempt_body a ts w = Some (f, w', ts')"
  shows "current_attempt w' = a"
proof -
  obtain g v tv where p: "pause_boundary ts (w\<lparr>current_attempt := a\<rparr>) = Some (g, v, tv)"
    and k: "(g = Next \<and> checks_and_invoke tv v = Some (f, w', ts')) \<or> (g \<noteq> Next \<and> w' = v)"
    using assms by (auto simp: attempt_body_def then_next_def split: option.splits flow.splits)
  have "current_attempt v = a" using attempt_pause_boundary[OF p] by simp
  then show ?thesis using k attempt_checks[of tv v f w' ts'] by auto
qed

lemma for_attempts_exhausted:
  "for_attempts as ts w = Some (Next, w', ts') \<Longrightarrow> as \<noteq> [] \<Longrightarrow> current_attempt w' = last as"
proof (induction as arbitrary: ts w)
  case Nil
  then show ?case by simp
next
  case (Cons a as)
  obtain v tv where b: "attempt_body a ts w = Some (Next, v, tv)"
    and r: "for_attempts as tv v = Some (Next, w', ts')"
    using Cons.prems(1) by (auto split: option.splits flow.splits)
  show ?case
  proof (cases as)
    case Nil
    then show ?thesis using r attempt_body_counts[OF b] by simp
  next
    case (Cons x xs)
    then show ?thesis using Cons.IH[OF r] by simp
  qed
qed

lemma last_upto: "1 \<le> n \<Longrightarrow> last [1..n] = (n::int)"
  by (simp add: upto_rec2)

lemma stop_ends_attempt:
  assumes "stop_requested w"
  shows "\<exists>w'. attempt_body a ts w = Some (Return, w', ts) \<and> status w' = Stopped"
proof (cases "pause_requested w")
  case True
  have "sleep_while (\<lambda>v. is_paused v \<and> \<not> stop_requested v) 5 ts
      (w\<lparr>current_attempt := a, is_paused := True, pause_requested := False, status := Paused\<rparr>)
      = Some (w\<lparr>current_attempt := a, is_paused := True, pause_requested := False,
               status := Paused\<rparr>, ts)"
    using assms by (cases ts) simp_all
  then show ?thesis
    using True assms by (simp add: attempt_body_def then_next_def pause_boundary_def)
next
  case False
  then show ?thesis
    using assms
    by (simp add: attempt_body_def then_next_def pause_boundary_def checks_and_invoke_def)
qed

subsection \<open>A wait that runs its full time\<close>

lemma descriptor_action:
  "waiting_reason (apply_action a w) = waiting_reason w \<and>
   waiting_duration (apply_action a w) = waiting_duration w \<and>
   waiting_since (apply_action a w) = waiting_since w"
proof (cases a)
  case OpForceKill
  have "waiting_reason (force_kill w) = waiting_reason w \<and>
      waiting_duration (force_kill w) = waiting_duration w \<and>
      waiting_since (force_kill w) = waiting_since w"
    by (subst (1 2 3) force_kill_shape) simp
  with OpForceKill show ?thesis by simp
qed (simp_all add: stop_def pause_def resume_def continue_after_missing_checkpoint_def
      stop_after_missing_checkpoint_def os_end_def)

lemma calm_action:
  "a \<noteq> OpStop \<Longrightarrow> a \<noteq> OpForceKill \<Longrightarrow>
   stop_requested (apply_action a w) = stop_requested w \<and>
   is_waiting (apply_action a w) = is_waiting w \<and>
   status (apply_action a w) = status w"
  by (cases a)
    (simp_all add: pause_def resume_def continue_after_missing_checkpoint_def
      stop_after_missing_checkpoint_def os_end_def)

lemma calm_actions:
  "list_all (\<lambda>a. a \<noteq> OpStop \<and> a \<noteq> OpForceKill) t \<Longrightarrow>
   stop_requested (fold apply_action t w) = stop_requested w \<and>
   is_waiting (fold apply_action t w) = is_waiting w \<and>
   status (fold apply_action t w) = status w \<and>
   waiting_reason (fold apply_action t w) = waiting_reason w \<and>
   waiting_duration (fold apply_action t w) = waiting_duration w \<and>
   waiting_since (fold apply_action t w) = waiting_since w"
  by (induction t arbitrary: w) (simp_all add: calm_action descriptor_action)

lemma calm_sleep:
  assumes "calm t"
  shows "stop_requested (sleep dt t w) = stop_requested w"
    "is_waiting (sleep dt t w) = is_waiting w" "status (sleep dt t w) = status w"
    "waiting_reason (sleep dt t w) = waiting_reason w"
    "waiting_duration (sleep dt t w) = waiting_duration w"
    "waiting_since (sleep dt t w) = waiting_since w"
  using calm_actions[of t "w\<lparr>clock := clock w + dt\<rparr>"] assms
  by (simp_all add: sleep_def calm_def)

lemma calm_sleeps:
  "list_all calm qs \<Longrightarrow>
   stop_requested (fold (sleep dt) qs w) = stop_requested w \<and>
   is_waiting (fold (sleep dt) qs w) = is_waiting w \<and>
   status (fold (sleep dt) qs w) = status w \<and>
   waiting_reason (fold (sleep dt) qs w) = waiting_reason w \<and>
   waiting_duration (fold (sleep dt) qs w) = waiting_duration w \<and>
   waiting_since (fold (sleep dt) qs w) = waiting_since w"
  by (induction qs arbitrary: w) (simp_all add: calm_sleep)

lemma wait_loop_full:
  "nat (2 * d - k) \<le> length ts \<Longrightarrow> list_all calm (take (nat (2 * d - k)) ts) \<Longrightarrow>
   \<not> stop_requested w \<Longrightarrow>
   wait_loop k d ts w =
     Some (fold (sleep 5) (take (nat (2 * d - k)) ts) w, drop (nat (2 * d - k)) ts)"
proof (induction ts arbitrary: k w)
  case Nil
  then show ?case by simp
next
  case (Cons t ts)
  show ?case
  proof (cases "k < 2 * d")
    case True
    then have n: "nat (2 * d - k) = Suc (nat (2 * d - (k + 1)))" by simp
    have c: "calm t" "list_all calm (take (nat (2 * d - (k + 1))) ts)"
      using Cons.prems(2) unfolding n by simp_all
    have l: "nat (2 * d - (k + 1)) \<le> length ts" using Cons.prems(1) unfolding n by simp
    have s: "\<not> stop_requested (sleep 5 t w)" using Cons.prems(3) by (simp add: calm_sleep[OF c(1)])
    have "wait_loop k d (t # ts) w = wait_loop (k + 1) d ts (sleep 5 t w)"
      using True Cons.prems(3) by simp
    also have "\<dots> = Some (fold (sleep 5) (take (nat (2 * d - (k + 1))) ts) (sleep 5 t w),
        drop (nat (2 * d - (k + 1))) ts)"
      by (rule Cons.IH[OF l c(2) s])
    finally show ?thesis unfolding n by simp
  next
    case False
    then show ?thesis by simp
  qed
qed

lemma wait_loop_short:
  "length ts < nat (2 * d - k) \<Longrightarrow> list_all calm ts \<Longrightarrow> \<not> stop_requested w \<Longrightarrow>
   wait_loop k d ts w = None"
proof (induction ts arbitrary: k w)
  case Nil
  then show ?case by simp
next
  case (Cons t ts)
  have k: "k < 2 * d" using Cons.prems(1) by simp
  have l: "length ts < nat (2 * d - (k + 1))" using Cons.prems(1) by simp
  have c: "calm t" "list_all calm ts" using Cons.prems(2) by simp_all
  have s: "\<not> stop_requested (sleep 5 t w)" using Cons.prems(3) by (simp add: calm_sleep[OF c(1)])
  show ?case using k Cons.prems(3) Cons.IH[OF l c(2) s] by simp
qed

lemma wait_entered:
  "set_waiting r (sleep_seconds w) (w\<lparr>waits := waits w @ [(r, sleep_seconds w)]\<rparr>) =
   waiting_state r w"
  by (simp add: set_waiting_def waiting_state_def)

lemma wait_then_continue_full:
  assumes "\<not> stop_requested w" and "nat (2 * sleep_seconds w) \<le> length ts"
    and "list_all calm (take (nat (2 * sleep_seconds w)) ts)"
  shows "wait_then_continue r ts w =
    Some (Next, clear_waiting (fold (sleep 5) (take (nat (2 * sleep_seconds w)) ts)
                  (waiting_state r w)), drop (nat (2 * sleep_seconds w)) ts)"
proof -
  have "wait_loop 0 (sleep_seconds w) ts (waiting_state r w) =
      Some (fold (sleep 5) (take (nat (2 * sleep_seconds w - 0)) ts) (waiting_state r w),
            drop (nat (2 * sleep_seconds w - 0)) ts)"
    by (rule wait_loop_full) (simp_all add: assms waiting_state_def)
  then show ?thesis
    by (simp add: wait_then_continue_def wait_with_state_def wait_entered)
qed

lemma wait_then_continue_short:
  assumes "\<not> stop_requested w" and "length ts < nat (2 * sleep_seconds w)"
    and "list_all calm ts"
  shows "wait_then_continue r ts w = None"
proof -
  have "wait_loop 0 (sleep_seconds w) ts (waiting_state r w) = None"
    by (rule wait_loop_short) (simp_all add: assms waiting_state_def)
  then show ?thesis
    by (simp add: wait_then_continue_def wait_with_state_def wait_entered)
qed

lemma wait_shown:
  assumes "list_all calm (take k ts)"
  shows "is_waiting (fold (sleep 5) (take k ts) (waiting_state r w)) \<and>
    waiting_reason (fold (sleep 5) (take k ts) (waiting_state r w)) = r \<and>
    waiting_duration (fold (sleep 5) (take k ts) (waiting_state r w)) = sleep_seconds w \<and>
    waiting_since (fold (sleep 5) (take k ts) (waiting_state r w)) = Some (clock w) \<and>
    status (fold (sleep 5) (take k ts) (waiting_state r w)) = status w"
  using calm_sleeps[OF assms, of 5 "waiting_state r w"] by (simp add: waiting_state_def)

lemma calm_prefix: "list_all calm (take n ts) \<Longrightarrow> k \<le> n \<Longrightarrow> list_all calm (take k ts)"
  by (metis list_all_append min.absorb1 take_add take_take le_iff_add)

subsection \<open>What a poll sees during a wait\<close>

text \<open>
  The clock advances by the length of every sleep, commands and files leave it alone, and
  a poll only adds to what was seen. So a poll in tick \<^verbatim>\<open>k\<close> of a wait that no stop
  request cuts short records the status the wait began with, the waiting flag, the reason
  and the whole seconds that remain after \<^verbatim>\<open>k + 1\<close> sleeps of half a second.
\<close>

lemma clock_action: "clock (apply_action a w) = clock w"
proof (cases a)
  case OpForceKill
  have "clock (force_kill w) = clock w" by (subst force_kill_shape) simp
  with OpForceKill show ?thesis by simp
qed (simp_all add: stop_def pause_def resume_def continue_after_missing_checkpoint_def
      stop_after_missing_checkpoint_def os_end_def)

lemma clock_sleep: "clock (sleep dt t w) = clock w + dt"
proof -
  have "clock (fold apply_action t v) = clock v" for v
    by (induction t arbitrary: v) (simp_all add: clock_action)
  then show ?thesis by (simp add: sleep_def)
qed

lemma clock_sleeps: "clock (fold (sleep dt) qs w) = clock w + dt * length qs"
  by (induction qs arbitrary: w) (simp_all add: clock_sleep)

lemma seen_action: "\<exists>xs. seen (apply_action a w) = seen w @ xs"
proof (cases a)
  case OpForceKill
  have "seen (force_kill w) = seen w" by (subst force_kill_shape) simp
  with OpForceKill show ?thesis by simp
qed (simp_all add: stop_def pause_def resume_def continue_after_missing_checkpoint_def
      stop_after_missing_checkpoint_def os_end_def)

lemma seen_actions: "\<exists>xs. seen (fold apply_action t w) = seen w @ xs"
proof (induction t arbitrary: w)
  case Nil
  show ?case by simp
next
  case (Cons a t)
  obtain xs where x: "seen (apply_action a w) = seen w @ xs" using seen_action by blast
  obtain ys where y: "seen (fold apply_action t (apply_action a w)) = seen (apply_action a w) @ ys"
    using Cons[of "apply_action a w"] by blast
  show ?case using x y by simp
qed

lemma seen_sleep: "\<exists>xs. seen (sleep dt t w) = seen w @ xs"
  using seen_actions[of t "w\<lparr>clock := clock w + dt\<rparr>"] by (simp add: sleep_def)

lemma seen_sleeps: "\<exists>xs. seen (fold (sleep dt) qs w) = seen w @ xs"
proof (induction qs arbitrary: w)
  case Nil
  show ?case by simp
next
  case (Cons t qs)
  obtain xs where x: "seen (sleep dt t w) = seen w @ xs" using seen_sleep by blast
  obtain ys where y: "seen (fold (sleep dt) qs (sleep dt t w)) = seen (sleep dt t w) @ ys"
    using Cons[of "sleep dt t w"] by blast
  show ?case using x y by simp
qed

lemma info_at:
  assumes "is_waiting v" and "waiting_reason v = r" and "waiting_duration v = d"
    and "waiting_since v = Some c" and "clock v = c + 5 * j"
  shows "get_waiting_info v = (True, r, max 0 (d - int (j div 2)))"
proof -
  have "(5 * int j) div 10 = int j div 2"
    using div_mult_mult1[of 5 "int j" 2] by simp
  then have "(int (c + 5 * j) - int c) div 10 = int (j div 2)"
    by (simp add: zdiv_int)
  then show ?thesis
    using assms by (simp add: get_waiting_info_def waiting_seconds_remaining_def Let_def)
qed

lemma wait_info:
  assumes "list_all calm (take k ts)" and "k \<le> length ts"
  shows "get_waiting_info (fold (sleep 5) (take k ts) (waiting_state r w)) =
      (True, r, max 0 (sleep_seconds w - int (k div 2)))"
proof -
  let ?F = "fold (sleep 5) (take k ts) (waiting_state r w)"
  have c: "clock ?F = clock w + 5 * k"
    using assms(2) by (simp add: clock_sleeps waiting_state_def)
  show ?thesis
    using wait_shown[OF assms(1), of r w] c by (intro info_at) simp_all
qed

lemma poll_during_wait:
  assumes "list_all calm (take k ts)" and "k < length ts" and "ts ! k = [OpPoll]"
  shows "seen (fold (sleep 5) (take (Suc k) ts) (waiting_state r w)) =
      seen (fold (sleep 5) (take k ts) (waiting_state r w)) @
        [(status w, True, r, max 0 (sleep_seconds w - int (Suc k div 2)))]"
proof -
  let ?F = "fold (sleep 5) (take k ts) (waiting_state r w)"
  let ?G = "?F\<lparr>clock := clock ?F + 5\<rparr>"
  have t: "take (Suc k) ts = take k ts @ [[OpPoll]]"
    using assms(2,3) by (simp add: take_Suc_conv_app_nth)
  have c: "clock ?G = clock w + 5 * Suc k"
    using assms(2) by (simp add: clock_sleeps waiting_state_def)
  have i: "get_waiting_info ?G = (True, r, max 0 (sleep_seconds w - int (Suc k div 2)))"
    using wait_shown[OF assms(1), of r w] c by (intro info_at) simp_all
  have s: "status ?G = status w"
    using wait_shown[OF assms(1), of r w] by simp
  have "fold (sleep 5) (take (Suc k) ts) (waiting_state r w) = sleep 5 [OpPoll] ?F"
    unfolding t by simp
  also have "\<dots> = ?G\<lparr>seen := seen ?G @ [(status ?G, get_waiting_info ?G)]\<rparr>"
    by (simp add: sleep_def)
  finally show ?thesis using i s by simp
qed

lemma poll_seen_at_end:
  assumes "list_all calm (take n ts)" and "n \<le> length ts" and "k < n" and "ts ! k = [OpPoll]"
  shows "(status w, True, r, max 0 (sleep_seconds w - int (Suc k div 2)))
      \<in> set (seen (clear_waiting (fold (sleep 5) (take n ts) (waiting_state r w))))"
proof -
  let ?F = "\<lambda>j. fold (sleep 5) (take j ts) (waiting_state r w)"
  have ck: "list_all calm (take k ts)" using calm_prefix[OF assms(1)] assms(3) by simp
  have p: "seen (?F (Suc k)) = seen (?F k) @
      [(status w, True, r, max 0 (sleep_seconds w - int (Suc k div 2)))]"
    by (rule poll_during_wait[OF ck _ assms(4)]) (use assms(2,3) in simp)
  have "take n ts = take (Suc k) ts @ drop (Suc k) (take n ts)"
    using assms(3) by (metis Suc_leI append_take_drop_id min.absorb1 take_take)
  then have "?F n = fold (sleep 5) (drop (Suc k) (take n ts)) (?F (Suc k))"
    by (metis fold_append comp_apply)
  then obtain xs where "seen (?F n) = seen (?F (Suc k)) @ xs"
    using seen_sleeps[of 5 "drop (Suc k) (take n ts)" "?F (Suc k)"] by auto
  then show ?thesis using p by (simp add: clear_waiting_def)
qed


subsection \<open>Claims\<close>

text \<open>
  C8 (as amended). In every state of the runner, \<^verbatim>\<open>force_kill\<close> requests a stop, sets
  the status to stopped, clears the waiting flag and the paused flag, and drops the child
  handle; a child that was held has ended afterwards. On Windows, where the method runs
  \<^verbatim>\<open>taskkill /T /F\<close>, every descendant of the child has ended too. On any other
  platform the method signals the direct child only: no other process is touched.
\<close>

theorem force_kill_effect:
  "status (force_kill w) = Stopped \<and> stop_requested (force_kill w) \<and>
   \<not> is_waiting (force_kill w) \<and> \<not> is_paused (force_kill w) \<and>
   current_process (force_kill w) = None \<and>
   (\<forall>pid. current_process w = Some pid \<longrightarrow>
      exited (force_kill w) pid \<noteq> None \<and>
      (is_windows w \<longrightarrow> (\<forall>q \<in> set (descendants w pid). exited (force_kill w) q \<noteq> None)) \<and>
      (\<not> is_windows w \<longrightarrow> (\<forall>q. q \<noteq> pid \<longrightarrow> exited (force_kill w) q = exited w q)))"
proof -
  have child: "exited (force_kill w) pid \<noteq> None" if "current_process w = Some pid" for pid
    unfolding force_kill_exited[OF that] Let_def by (rule end_child_ends)
  have tree: "exited (force_kill w) q \<noteq> None"
    if "current_process w = Some pid" "is_windows w" "q \<in> set (descendants w pid)" for pid q
  proof -
    have "exited (taskkill_tree pid (w\<lparr>stop_requested := True\<rparr>)) q \<noteq> None"
      by (rule taskkill_tree_ends) (simp add: that)
    then show ?thesis
      unfolding force_kill_exited[OF that(1)] Let_def using that(2)
      by (simp add: kill_keeps del: not_None_eq)
  qed
  have others: "exited (force_kill w) q = exited w q"
    if "current_process w = Some pid" "\<not> is_windows w" "q \<noteq> pid" for pid q
    unfolding force_kill_exited[OF that(1)] Let_def using that(2,3)
    by (simp add: kill_other terminate_other)
  show ?thesis
    using child tree others by (simp add: force_kill_fields del: not_None_eq)
qed


text \<open>C8 as stated fails off Windows: the child's descendant, process 2, still runs
  after \<^verbatim>\<open>force_kill\<close>.\<close>

theorem force_kill_descendants_counterexample:
  "\<not> is_windows c8_posix \<and> current_process c8_posix = Some 1 \<and>
   descendants c8_posix 1 = [2] \<and> exited c8_posix 2 = None \<and>
   exited (force_kill c8_posix) 1 \<noteq> None \<and> exited (force_kill c8_posix) 2 = None"
  by (simp add: c8_posix_def run_simps)

theorem force_kill_effect_witness:
  "current_process c8_windows = Some 1 \<and> is_windows c8_windows \<and>
   2 \<in> set (descendants c8_windows 1) \<and> is_waiting c8_windows \<and> is_paused c8_windows \<and>
   status (force_kill c8_windows) = Stopped \<and> \<not> is_waiting (force_kill c8_windows) \<and>
   \<not> is_paused (force_kill c8_windows) \<and> current_process (force_kill c8_windows) = None \<and>
   exited (force_kill c8_windows) 1 \<noteq> None \<and> exited (force_kill c8_windows) 2 \<noteq> None \<and>
   current_process c8_posix = Some 1 \<and> \<not> is_windows c8_posix \<and>
   exited (force_kill c8_posix) 1 \<noteq> None \<and> exited (force_kill c8_posix) 2 = exited c8_posix 2"
  using force_kill_effect[of c8_windows] force_kill_effect[of c8_posix]
  by (simp add: c8_windows_def c8_posix_def env0_def)


text \<open>
  C2 (as amended). \<^verbatim>\<open>pause\<close>, \<^verbatim>\<open>resume\<close>, \<^verbatim>\<open>stop\<close> and the two
  missing-checkpoint decisions never change the status, so they keep a terminal status;
  \<^verbatim>\<open>force_kill\<close> sets the status to stopped whatever it was, so of the four terminal
  values only stopped is kept by it.
\<close>

theorem terminal_status_against_commands:
  "status (pause w) = status w \<and> status (resume w) = status w \<and>
   status (stop w) = status w \<and>
   status (continue_after_missing_checkpoint w) = status w \<and>
   status (stop_after_missing_checkpoint w) = status w \<and>
   status (force_kill w) = Stopped"
  by (simp add: pause_def resume_def stop_def continue_after_missing_checkpoint_def
      stop_after_missing_checkpoint_def force_kill_fields)


text \<open>C2 as stated fails: a run that the loop ended as completed is stopped after
  \<^verbatim>\<open>force_kill\<close>.\<close>

theorem force_kill_after_completed_counterexample:
  "start (init 3 1 env0) = Inr c2_started \<and>
   map_option (status \<circ> fst) (run_thread [[FsCreate DONE_FILE, ProcExit 7 0]] c2_started)
     = Some Completed \<and>
   map_option (status \<circ> force_kill \<circ> fst)
     (run_thread [[FsCreate DONE_FILE, ProcExit 7 0]] c2_started) = Some Stopped"
  by (simp add: c2_started_def run_simps)

text \<open>
  C5 (as amended). Whenever the loop starts in a folder without the design file, in
  whatever state the runner is, it ends at once: the status is failed, the error message
  is the non-empty string "Missing RALPH-DESIGN.md", no Popen is made, no wait is entered,
  no process or file is touched, no tick of the script is used, and the attempt counter
  keeps the value it had. For a runner that was just constructed and started, that
  value is 0.
\<close>

theorem no_design_spec_no_attempt:
  assumes "\<not> file_exists PIN_SPEC w"
  shows "run_thread ts w =
           Some (w\<lparr>status := Failed, error_message := Some ''Missing RALPH-DESIGN.md'',
                   thread := Some False\<rparr>, ts) \<and>
         (\<forall>w'. run_thread ts w = Some (w', ts) \<longrightarrow>
            status w' = Failed \<and> error_message w' = Some ''Missing RALPH-DESIGN.md'' \<and>
            error_message w' \<noteq> Some [] \<and> invocations w' = invocations w \<and>
            current_attempt w' = current_attempt w \<and> waits w' = waits w \<and>
            exited w' = exited w \<and> fs w' = fs w) \<and>
         (\<forall>m s env. start (init m s env) = Inr w \<longrightarrow>
            (\<forall>w'. run_thread ts w = Some (w', ts) \<longrightarrow> current_attempt w' = 0))"
proof -
  have r: "run_thread ts w =
      Some (w\<lparr>status := Failed, error_message := Some ''Missing RALPH-DESIGN.md'',
              thread := Some False\<rparr>, ts)"
    using assms by (simp add: run_thread_def run_loop_no_spec)
  have f: "current_attempt w = 0" if "start (init m s env) = Inr w" for m s env
  proof -
    have "w = (init m s env)\<lparr>stop_requested := False, status := Running, thread := Some True\<rparr>"
      using that by (simp add: start_cases init_def)
    then show ?thesis by (simp add: init_def)
  qed
  show ?thesis
    unfolding r using f by auto
qed

theorem no_design_spec_no_attempt_witness:
  "\<not> file_exists PIN_SPEC c5_started \<and> start (init 40 2 c5_env) = Inr c5_started \<and>
   (\<exists>w'. run_thread [[OpPause], [OpStop]] c5_started = Some (w', [[OpPause], [OpStop]]) \<and>
      status w' = Failed \<and> error_message w' = Some ''Missing RALPH-DESIGN.md'' \<and>
      invocations w' = 0 \<and> current_attempt w' = 0) \<and>
   \<not> file_exists PIN_SPEC (pause c5_started) \<and>
   (\<exists>w'. run_thread [] (pause c5_started) = Some (w', []) \<and> status w' = Failed \<and>
      pause_requested w' \<and> current_attempt w' = 0)"
proof -
  have a: "\<not> file_exists PIN_SPEC c5_started" "\<not> file_exists PIN_SPEC (pause c5_started)"
    by (simp_all add: c5_started_def c5_env_def env0_def init_def pause_def file_exists_def
        file_names)
  have b: "start (init 40 2 c5_env) = Inr c5_started"
    by (simp add: c5_started_def start_def init_def)
  have c: "invocations c5_started = 0" "current_attempt c5_started = 0"
    "current_attempt (pause c5_started) = 0"
    "pause_requested (pause c5_started)"
    by (simp_all add: c5_started_def c5_env_def env0_def init_def pause_def)
  note t1 = no_design_spec_no_attempt[OF a(1), of "[[OpPause], [OpStop]]"]
  note t2 = no_design_spec_no_attempt[OF a(2), of "[]"]
  have r1: "\<exists>w'. run_thread [[OpPause], [OpStop]] c5_started = Some (w', [[OpPause], [OpStop]]) \<and>
      status w' = Failed \<and> error_message w' = Some ''Missing RALPH-DESIGN.md'' \<and>
      invocations w' = 0 \<and> current_attempt w' = 0"
    using t1 b c by simp
  have r2: "\<exists>w'. run_thread [] (pause c5_started) = Some (w', []) \<and> status w' = Failed \<and>
      pause_requested w' \<and> current_attempt w' = 0"
    using t2 c by simp
  show ?thesis using a b r1 r2 by blast
qed


text \<open>C5 as stated fails on an instance that is started a second time: the first run used
  its two attempts; the design file is then removed and the runner started again; the
  second run ends failed with the counter still at 2, not at 0.\<close>

theorem restarted_counter_counterexample:
  "map_option (current_attempt \<circ> fst) (run_thread [] c3_started) = Some 2 \<and>
   map_option (status \<circ> fst) c5_second_run = Some Failed \<and>
   map_option (error_message \<circ> fst) c5_second_run = Some (Some ''Missing RALPH-DESIGN.md'') \<and>
   map_option (invocations \<circ> fst) (run_thread [] c3_started) = Some 2 \<and>
   map_option (invocations \<circ> fst) c5_second_run = Some 2 \<and>
   map_option (current_attempt \<circ> fst) c5_second_run = Some 2 \<and>
   map_option (current_attempt \<circ> fst) c5_second_run \<noteq> Some 0"
  by (simp add: c5_second_run_def c3_started_def c2_started_def run_simps)

text \<open>
  C7 (as amended). \<^verbatim>\<open>start\<close> raises exactly when the runner's thread is alive: a
  runner that was just started cannot be started again. Once the loop has returned, in
  whatever status, the thread is no longer alive and \<^verbatim>\<open>start\<close> is accepted on the
  same instance: it clears the stop request, sets the status to running and starts the loop
  again.
\<close>

theorem start_guards_live_thread_only:
  "(thread w = Some True \<longrightarrow> start w = Inl (RuntimeError ''Runner is already running'')) \<and>
   (\<forall>w1. start w = Inr w1 \<longrightarrow>
      w1 = w\<lparr>stop_requested := False, status := Running, thread := Some True\<rparr> \<and>
      start w1 = Inl (RuntimeError ''Runner is already running'')) \<and>
   (\<forall>w' ts'. run_thread ts w = Some (w', ts') \<longrightarrow>
      start w' = Inr (w'\<lparr>stop_requested := False, status := Running, thread := Some True\<rparr>))"
proof -
  have "start w' = Inr (w'\<lparr>stop_requested := False, status := Running, thread := Some True\<rparr>)"
    if "run_thread ts w = Some (w', ts')" for w' ts'
    using run_thread_dead[OF that] by (simp add: start_cases)
  then show ?thesis by (auto simp: start_cases split: if_splits)
qed

theorem start_guards_live_thread_only_witness:
  "thread c5_started = Some True \<and>
   start c5_started = Inl (RuntimeError ''Runner is already running'') \<and>
   start (init 40 2 c5_env) = Inr c5_started \<and>
   (\<exists>w'. run_thread [] c5_started = Some (w', []) \<and> status w' = Failed \<and>
      start w' = Inr (w'\<lparr>stop_requested := False, status := Running, thread := Some True\<rparr>))"
proof -
  have a: "thread c5_started = Some True" by (simp add: c5_started_def)
  have b: "start (init 40 2 c5_env) = Inr c5_started"
    by (simp add: c5_started_def start_def init_def)
  have c: "run_thread [] c5_started =
      Some (c5_started\<lparr>status := Failed, error_message := Some ''Missing RALPH-DESIGN.md'',
              thread := Some False\<rparr>, [])"
    by (simp add: run_thread_def run_loop_def c5_started_def c5_env_def env0_def init_def
        file_exists_def file_names)
  show ?thesis
    using start_guards_live_thread_only[of c5_started "[]"] a b c by simp
qed


text \<open>C7 as stated fails: the runner below ended as failed, and starting it again is no
  error but sets its status to running.\<close>

theorem restart_after_terminal_counterexample:
  "start (init 40 2 c5_env) = Inr c5_started \<and>
   map_option (status \<circ> fst) (run_thread [] c5_started) = Some Failed \<and>
   map_option (isl \<circ> start \<circ> fst) (run_thread [] c5_started) = Some False \<and>
   map_option (map_sum id status \<circ> start \<circ> fst) (run_thread [] c5_started) = Some (Inr Running)"
  by (simp add: run_thread_def run_loop_def c5_started_def c5_env_def env0_def init_def
      start_def file_exists_def file_names)

text \<open>
  C10. When the design file is there and the scaffolds are written, the loop starts its
  attempts from a folder that holds neither the done nor the blocked file: both are removed,
  so the check for them finds nothing at the start of attempt 1, and the whole run is the
  run from the folder without them. When no pause is pending and no stop is requested,
  attempt 1 goes on to the checkpoint wait or to the invocation.
\<close>

theorem stale_terminal_files_removed:
  assumes "file_exists PIN_SPEC w" and "prepare w = Inr w1"
  shows "\<not> file_exists DONE_FILE w1 \<and> \<not> file_exists BLOCKED_FILE w1 \<and>
         w1 = w\<lparr>fs := (fs w \<union> {PLAN_FILE, PROGRESS_FILE}) - {DONE_FILE, BLOCKED_FILE}\<rparr> \<and>
         terminal_check (w1\<lparr>current_attempt := 1\<rparr>) = None \<and>
         run_loop ts w = finish (for_attempts [1..max_attempts w] ts w1) \<and>
         run_loop ts (w\<lparr>fs := fs w - {DONE_FILE, BLOCKED_FILE}\<rparr>) = run_loop ts w \<and>
         (\<not> pause_requested w \<and> \<not> stop_requested w \<and> \<not> file_exists STOP_FILE w \<longrightarrow>
            attempt_body 1 ts w1 =
              (if file_exists CHECKPOINT_FILE w
               then wait_then_continue ''checkpoint'' ts
                      (remove_file CHECKPOINT_FILE (w1\<lparr>current_attempt := 1\<rparr>))
               else invoke_step ts (w1\<lparr>current_attempt := 1\<rparr>)))"
proof -
  have w1: "w1 = w\<lparr>fs := (fs w \<union> {PLAN_FILE, PROGRESS_FILE}) - {DONE_FILE, BLOCKED_FILE}\<rparr>"
    using assms(2) by (simp add: prepare_cases split: if_splits)
  have gone: "\<not> file_exists DONE_FILE w1" "\<not> file_exists BLOCKED_FILE w1"
    by (simp_all add: w1 file_exists_def)
  have gone1: "\<not> file_exists DONE_FILE (w1\<lparr>current_attempt := 1\<rparr>)"
    "\<not> file_exists BLOCKED_FILE (w1\<lparr>current_attempt := 1\<rparr>)"
    using gone by (simp_all add: file_exists_def)
  have tc: "terminal_check (w1\<lparr>current_attempt := 1\<rparr>) = None"
    by (rule terminal_check_none[OF gone1])
  have m: "max_attempts w1 = max_attempts w" by (simp add: w1)
  have run: "run_loop ts w = finish (for_attempts [1..max_attempts w] ts w1)"
    using assms by (simp add: run_loop_def m)
  have pin: "PIN_SPEC \<noteq> DONE_FILE" "PIN_SPEC \<noteq> BLOCKED_FILE"
    by (simp_all add: file_names)
  have pin': "file_exists PIN_SPEC (w\<lparr>fs := fs w - {DONE_FILE, BLOCKED_FILE}\<rparr>)"
    using assms(1) pin by (simp add: file_exists_def)
  have same: "run_loop ts (w\<lparr>fs := fs w - {DONE_FILE, BLOCKED_FILE}\<rparr>) = run_loop ts w"
    using pin' assms by (simp add: run_loop_def stale_removed_same_prepare[OF assms(2)] m)
  have cp: "CHECKPOINT_FILE \<noteq> PLAN_FILE" "CHECKPOINT_FILE \<noteq> PROGRESS_FILE"
    "CHECKPOINT_FILE \<noteq> DONE_FILE" "CHECKPOINT_FILE \<noteq> BLOCKED_FILE"
    "STOP_FILE \<noteq> PLAN_FILE" "STOP_FILE \<noteq> PROGRESS_FILE"
    by (simp_all add: file_names)
  have first: "attempt_body 1 ts w1 =
      (if file_exists CHECKPOINT_FILE w
       then wait_then_continue ''checkpoint'' ts
              (remove_file CHECKPOINT_FILE (w1\<lparr>current_attempt := 1\<rparr>))
       else invoke_step ts (w1\<lparr>current_attempt := 1\<rparr>))"
    if h: "\<not> pause_requested w" "\<not> stop_requested w" "\<not> file_exists STOP_FILE w"
  proof -
    let ?v = "w1\<lparr>current_attempt := 1\<rparr>"
    have p: "pause_boundary ts ?v = Some (Next, ?v, ts)"
      by (rule pause_boundary_skip) (simp add: w1 h)
    have a: "\<not> stop_requested ?v" using h by (simp add: w1)
    have b: "\<not> file_exists STOP_FILE ?v" using h cp by (simp add: w1 file_exists_def)
    have c: "file_exists CHECKPOINT_FILE ?v = file_exists CHECKPOINT_FILE w"
      using cp by (simp add: w1 file_exists_def)
    show ?thesis
      unfolding attempt_body_reach[OF p] checks_pass[OF a b gone1] c ..
  qed
  show ?thesis
    using gone w1 tc run same first by blast
qed

theorem stale_terminal_files_removed_witness:
  "file_exists PIN_SPEC c10_started \<and> file_exists DONE_FILE c10_started \<and>
   file_exists BLOCKED_FILE c10_started \<and> prepare c10_started = Inr c10_prepared \<and>
   \<not> pause_requested c10_started \<and> \<not> stop_requested c10_started \<and>
   \<not> file_exists STOP_FILE c10_started \<and> \<not> file_exists CHECKPOINT_FILE c10_started \<and>
   \<not> file_exists DONE_FILE c10_prepared \<and> \<not> file_exists BLOCKED_FILE c10_prepared \<and>
   attempt_body 1 [[ProcExit 7 1]] c10_prepared =
     invoke_step [[ProcExit 7 1]] (c10_prepared\<lparr>current_attempt := 1\<rparr>) \<and>
   map_option (status \<circ> fst) (run_loop [[ProcExit 7 1]] c10_started) = Some Failed"
proof -
  have a: "file_exists PIN_SPEC c10_started" "file_exists DONE_FILE c10_started"
    "file_exists BLOCKED_FILE c10_started" "\<not> pause_requested c10_started"
    "\<not> stop_requested c10_started" "\<not> file_exists STOP_FILE c10_started"
    "\<not> file_exists CHECKPOINT_FILE c10_started"
    by (simp_all add: c10_started_def c10_env_def env0_def init_def file_exists_def file_names)
  have s: "{PLAN_FILE, PROGRESS_FILE, PIN_SPEC, DONE_FILE, BLOCKED_FILE} - {DONE_FILE, BLOCKED_FILE}
      = {PIN_SPEC, PLAN_FILE, PROGRESS_FILE}"
    by (auto simp: file_names)
  have b: "prepare c10_started = Inr c10_prepared"
    by (simp add: prepare_cases c10_prepared_def c10_started_def c10_env_def env0_def init_def s)
  have r: "map_option (status \<circ> fst) (run_loop [[ProcExit 7 1]] c10_started) = Some Failed"
    by (simp add: c10_started_def c10_env_def run_simps)
  show ?thesis
    using stale_terminal_files_removed[OF a(1) b, of "[[ProcExit 7 1]]"] a b r by simp
qed

text \<open>
  C1. In every attempt whose stop check has passed, the check for the done and the blocked
  file comes before the checkpoint check, before an invocation and after one that
  succeeded: when the done or the blocked file is there, the loop returns at once with
  status completed (done file) or blocked (blocked file only), and the checkpoint file is
  not in the folder afterwards; nothing else of the runner changes, so no checkpoint wait
  is entered.
\<close>

theorem terminal_files_before_checkpoint:
  assumes "pause_boundary ts0 (w0\<lparr>current_attempt := a\<rparr>) = Some (Next, w, ts)"
    and "\<not> stop_requested w" and "\<not> file_exists STOP_FILE w"
  shows
    "(file_exists DONE_FILE w \<or> file_exists BLOCKED_FILE w \<longrightarrow>
        attempt_body a ts0 w0 =
          Some (Return,
                w\<lparr>fs := fs w - {CHECKPOINT_FILE},
                  status := (if file_exists DONE_FILE w then Completed else Blocked)\<rparr>, ts)) \<and>
     (\<not> file_exists DONE_FILE w \<and> \<not> file_exists BLOCKED_FILE w \<and>
      \<not> file_exists CHECKPOINT_FILE w \<longrightarrow>
        (\<forall>w1 ts1. invoke_opencode ts w = Some (Inr True, w1, ts1) \<and>
                  (file_exists DONE_FILE w1 \<or> file_exists BLOCKED_FILE w1) \<longrightarrow>
           attempt_body a ts0 w0 =
             Some (Return,
                   w1\<lparr>fs := fs w1 - {CHECKPOINT_FILE},
                      status := (if file_exists DONE_FILE w1 then Completed else Blocked)\<rparr>,
                   ts1)))"
proof (intro conjI impI allI)
  assume f: "file_exists DONE_FILE w \<or> file_exists BLOCKED_FILE w"
  show "attempt_body a ts0 w0 =
      Some (Return, w\<lparr>fs := fs w - {CHECKPOINT_FILE},
              status := (if file_exists DONE_FILE w then Completed else Blocked)\<rparr>, ts)"
    unfolding attempt_body_reach[OF assms(1)]
    using assms(2,3) by (simp add: checks_and_invoke_def terminal_check_found[OF f])
next
  fix w1 ts1
  assume n: "\<not> file_exists DONE_FILE w \<and> \<not> file_exists BLOCKED_FILE w \<and>
      \<not> file_exists CHECKPOINT_FILE w"
    and i: "invoke_opencode ts w = Some (Inr True, w1, ts1) \<and>
      (file_exists DONE_FILE w1 \<or> file_exists BLOCKED_FILE w1)"
  have "attempt_body a ts0 w0 = invoke_step ts w"
    using attempt_to_invoke[OF assms] n by simp
  also have "\<dots> = after_invoke ts1 w1"
    using i by (simp add: invoke_step_ok)
  finally show "attempt_body a ts0 w0 =
      Some (Return, w1\<lparr>fs := fs w1 - {CHECKPOINT_FILE},
              status := (if file_exists DONE_FILE w1 then Completed else Blocked)\<rparr>, ts1)"
    using i by (simp add: after_invoke_def terminal_check_found)
qed

theorem terminal_files_before_checkpoint_witness:
  "file_exists BLOCKED_FILE c1_pre \<and> file_exists CHECKPOINT_FILE c1_pre \<and>
   (\<exists>w'. attempt_body 2 [[OpStop]] c1_pre = Some (Return, w', [[OpStop]]) \<and>
      status w' = Blocked \<and> \<not> file_exists CHECKPOINT_FILE w' \<and> waits w' = []) \<and>
   (\<exists>w1. invoke_opencode [[FsCreate CHECKPOINT_FILE, FsCreate DONE_FILE, ProcExit 7 0], []]
             (c1_post\<lparr>current_attempt := 1\<rparr>) = Some (Inr True, w1, [[]]) \<and>
      file_exists DONE_FILE w1 \<and> file_exists CHECKPOINT_FILE w1) \<and>
   (\<exists>w'. attempt_body 1 [[FsCreate CHECKPOINT_FILE, FsCreate DONE_FILE, ProcExit 7 0], []]
             c1_post = Some (Return, w', [[]]) \<and>
      status w' = Completed \<and> \<not> file_exists CHECKPOINT_FILE w' \<and> waits w' = [])"
proof -
  let ?v = "c1_pre\<lparr>current_attempt := 2\<rparr>"
  let ?ts = "[[FsCreate CHECKPOINT_FILE, FsCreate DONE_FILE, ProcExit 7 0], []]"
  let ?u = "c1_post\<lparr>current_attempt := 1\<rparr>"
  have p: "pause_boundary [[OpStop]] ?v = Some (Next, ?v, [[OpStop]])"
    by (simp add: pause_boundary_def c1_pre_def c2_started_def init_def)
  have v: "\<not> stop_requested ?v" "\<not> file_exists STOP_FILE ?v" "file_exists BLOCKED_FILE ?v"
    "\<not> file_exists DONE_FILE ?v" "file_exists CHECKPOINT_FILE ?v" "waits ?v = []"
    by (simp_all add: c1_pre_def c2_started_def init_def env0_def file_exists_def file_names)
  have pre: "attempt_body 2 [[OpStop]] c1_pre =
      Some (Return, ?v\<lparr>fs := fs ?v - {CHECKPOINT_FILE}, status := Blocked\<rparr>, [[OpStop]])"
    using terminal_files_before_checkpoint[OF p v(1,2)] v by simp
  have q: "pause_boundary ?ts ?u = Some (Next, ?u, ?ts)"
    by (simp add: pause_boundary_def c1_post_def c2_started_def init_def)
  have u: "\<not> stop_requested ?u" "\<not> file_exists STOP_FILE ?u" "\<not> file_exists BLOCKED_FILE ?u"
    "\<not> file_exists DONE_FILE ?u" "\<not> file_exists CHECKPOINT_FILE ?u"
    by (simp_all add: c1_post_def c2_started_def init_def env0_def file_exists_def file_names)
  have "\<exists>w1. invoke_opencode ?ts ?u = Some (Inr True, w1, [[]]) \<and>
      file_exists DONE_FILE w1 \<and> file_exists CHECKPOINT_FILE w1 \<and> waits w1 = []"
    by (simp add: c1_post_def c2_started_def run_simps)
  then obtain w1 where i: "invoke_opencode ?ts ?u = Some (Inr True, w1, [[]])"
    and w1: "file_exists DONE_FILE w1" "file_exists CHECKPOINT_FILE w1" "waits w1 = []"
    by blast
  have post: "attempt_body 1 ?ts c1_post =
      Some (Return, w1\<lparr>fs := fs w1 - {CHECKPOINT_FILE}, status := Completed\<rparr>, [[]])"
    using terminal_files_before_checkpoint[OF q u(1,2)] u i w1 by simp
  have "file_exists BLOCKED_FILE c1_pre" "file_exists CHECKPOINT_FILE c1_pre"
    using v by (simp_all add: file_exists_def)
  then show ?thesis
    using pre post i w1 v by (simp add: file_exists_def)
qed

text \<open>
  C6. In every attempt that passes the stop check and finds neither the done nor the
  blocked file: if the checkpoint file is there, the attempt removes it and does nothing
  but wait with reason "checkpoint" for \<^verbatim>\<open>sleep_seconds\<close>, and then the loop goes to
  the next attempt with no Popen made. If the checkpoint file is not there and the
  invocation returns True leaving the checkpoint file (and neither the done nor the blocked
  file), the attempt removes it and waits in the same way: it goes to the next attempt
  having made one Popen, with the checkpoint wait as its only wait (no backoff) and the
  error message as the invocation left it. The wait is the waiting state of the runner:
  with \<^verbatim>\<open>n\<close> twice \<^verbatim>\<open>sleep_seconds\<close>, through \<^verbatim>\<open>n\<close> calm ticks of half a second
  the attempt sleeps exactly \<^verbatim>\<open>n\<close> times, before and after each of these sleeps the
  waiting flag is set with reason "checkpoint" and the configured delay as duration, the
  descriptor is cleared at the end, and on fewer than \<^verbatim>\<open>n\<close> calm ticks the attempt has
  not returned. After \<^verbatim>\<open>k\<close> of these sleeps \<^verbatim>\<open>get_waiting_info\<close> gives the flag, the
  reason "checkpoint" and the whole seconds that remain of \<^verbatim>\<open>sleep_seconds\<close>, and
  every poll made during tick \<^verbatim>\<open>k\<close> of the wait is found in what the returned runner
  has shown: the status the attempt had, waiting, "checkpoint", and the seconds that
  remain after \<^verbatim>\<open>k + 1\<close> sleeps.
\<close>

theorem checkpoint_consumed:
  assumes "pause_boundary ts0 (w0\<lparr>current_attempt := a\<rparr>) = Some (Next, w, ts)"
    and "\<not> stop_requested w" and "\<not> file_exists STOP_FILE w"
    and "\<not> file_exists DONE_FILE w" and "\<not> file_exists BLOCKED_FILE w"
    and "n = nat (2 * sleep_seconds w)"
    and "V = waiting_state ''checkpoint'' (w\<lparr>fs := fs w - {CHECKPOINT_FILE}\<rparr>)"
    and "V1 = waiting_state ''checkpoint'' (w1\<lparr>fs := fs w1 - {CHECKPOINT_FILE}\<rparr>)"
  shows
    "(file_exists CHECKPOINT_FILE w \<longrightarrow>
        attempt_body a ts0 w0 =
          wait_then_continue ''checkpoint'' ts (w\<lparr>fs := fs w - {CHECKPOINT_FILE}\<rparr>) \<and>
        (n \<le> length ts \<longrightarrow> attempt_body a ts0 w0 \<noteq> None) \<and>
        (\<forall>f w' ts'. attempt_body a ts0 w0 = Some (f, w', ts') \<longrightarrow>
           f = Next \<and> invocations w' = invocations w \<and>
           waits w' = waits w @ [(''checkpoint'', sleep_seconds w)] \<and> \<not> is_waiting w') \<and>
        (n \<le> length ts \<and> list_all calm (take n ts) \<longrightarrow>
           attempt_body a ts0 w0 =
             Some (Next, clear_waiting (fold (sleep 5) (take n ts) V), drop n ts) \<and>
           (\<forall>k\<le>n. is_waiting (fold (sleep 5) (take k ts) V) \<and>
                  waiting_reason (fold (sleep 5) (take k ts) V) = ''checkpoint'' \<and>
                  waiting_duration (fold (sleep 5) (take k ts) V) = sleep_seconds w \<and>
                  get_waiting_info (fold (sleep 5) (take k ts) V) =
                    (True, ''checkpoint'', max 0 (sleep_seconds w - int (k div 2)))) \<and>
           (\<forall>k<n. ts ! k = [OpPoll] \<longrightarrow>
              (\<forall>f w' ts'. attempt_body a ts0 w0 = Some (f, w', ts') \<longrightarrow>
                 (status w, True, ''checkpoint'',
                  max 0 (sleep_seconds w - int (Suc k div 2))) \<in> set (seen w')))) \<and>
        (length ts < n \<and> list_all calm ts \<longrightarrow> attempt_body a ts0 w0 = None)) \<and>
     (\<not> file_exists CHECKPOINT_FILE w \<and>
      invoke_opencode ts w = Some (Inr True, w1, ts1) \<and>
      \<not> file_exists DONE_FILE w1 \<and> \<not> file_exists BLOCKED_FILE w1 \<and>
      file_exists CHECKPOINT_FILE w1 \<longrightarrow>
        attempt_body a ts0 w0 =
          wait_then_continue ''checkpoint'' ts1 (w1\<lparr>fs := fs w1 - {CHECKPOINT_FILE}\<rparr>) \<and>
        (n \<le> length ts1 \<longrightarrow> attempt_body a ts0 w0 \<noteq> None) \<and>
        (\<forall>f w' ts'. attempt_body a ts0 w0 = Some (f, w', ts') \<longrightarrow>
           f = Next \<and> invocations w' = invocations w + 1 \<and>
           waits w' = waits w @ [(''checkpoint'', sleep_seconds w)] \<and>
           error_message w' = error_message w1 \<and> \<not> is_waiting w') \<and>
        (\<not> stop_requested w1 \<and> n \<le> length ts1 \<and> list_all calm (take n ts1) \<longrightarrow>
           attempt_body a ts0 w0 =
             Some (Next, clear_waiting (fold (sleep 5) (take n ts1) V1), drop n ts1) \<and>
           (\<forall>k\<le>n. is_waiting (fold (sleep 5) (take k ts1) V1) \<and>
                  waiting_reason (fold (sleep 5) (take k ts1) V1) = ''checkpoint'' \<and>
                  waiting_duration (fold (sleep 5) (take k ts1) V1) = sleep_seconds w \<and>
                  get_waiting_info (fold (sleep 5) (take k ts1) V1) =
                    (True, ''checkpoint'', max 0 (sleep_seconds w - int (k div 2)))) \<and>
           (\<forall>k<n. ts1 ! k = [OpPoll] \<longrightarrow>
              (\<forall>f w' ts'. attempt_body a ts0 w0 = Some (f, w', ts') \<longrightarrow>
                 (status w1, True, ''checkpoint'',
                  max 0 (sleep_seconds w - int (Suc k div 2))) \<in> set (seen w')))) \<and>
        (\<not> stop_requested w1 \<and> length ts1 < n \<and> list_all calm ts1 \<longrightarrow>
           attempt_body a ts0 w0 = None))"
proof (intro conjI impI allI)
  assume c: "file_exists CHECKPOINT_FILE w"
  let ?v = "w\<lparr>fs := fs w - {CHECKPOINT_FILE}\<rparr>"
  have sv: "\<not> stop_requested ?v" "sleep_seconds ?v = sleep_seconds w"
    using assms(2) by simp_all
  show e: "attempt_body a ts0 w0 = wait_then_continue ''checkpoint'' ts ?v"
    unfolding attempt_body_reach[OF assms(1)] checks_pass[OF assms(2-5)]
    using c by (simp add: remove_file_eq)
  show "attempt_body a ts0 w0 \<noteq> None" if "n \<le> length ts"
    unfolding e using wait_then_continue_returns[of ?v ts "''checkpoint''"] that assms(6) by simp
  show "f = Next" "invocations w' = invocations w"
    "waits w' = waits w @ [(''checkpoint'', sleep_seconds w)]" "\<not> is_waiting w'"
    if "attempt_body a ts0 w0 = Some (f, w', ts')" for f w' ts'
    using wait_then_continue_frame[of "''checkpoint''" ts ?v f w' ts'] that
    unfolding e by simp_all
  show "attempt_body a ts0 w0 =
      Some (Next, clear_waiting (fold (sleep 5) (take n ts) V), drop n ts)"
    if "n \<le> length ts \<and> list_all calm (take n ts)"
    unfolding e assms(6,7)
    using wait_then_continue_full[of ?v ts "''checkpoint''"] that sv assms(6) by simp
  show "is_waiting (fold (sleep 5) (take k ts) V)"
    "waiting_reason (fold (sleep 5) (take k ts) V) = ''checkpoint''"
    "waiting_duration (fold (sleep 5) (take k ts) V) = sleep_seconds w"
    if "n \<le> length ts \<and> list_all calm (take n ts)" "k \<le> n" for k
    using wait_shown[OF calm_prefix[OF conjunct2[OF that(1)] that(2)], of "''checkpoint''" ?v]
    unfolding assms(7) by simp_all
  show "get_waiting_info (fold (sleep 5) (take k ts) V) =
      (True, ''checkpoint'', max 0 (sleep_seconds w - int (k div 2)))"
    if "n \<le> length ts \<and> list_all calm (take n ts)" "k \<le> n" for k
    using wait_info[OF calm_prefix[OF conjunct2[OF that(1)] that(2)], of "''checkpoint''" ?v]
      that
    unfolding assms(7) by simp
  show "(status w, True, ''checkpoint'', max 0 (sleep_seconds w - int (Suc k div 2)))
      \<in> set (seen w')"
    if h: "n \<le> length ts \<and> list_all calm (take n ts)" "k < n" "ts ! k = [OpPoll]"
      "attempt_body a ts0 w0 = Some (f, w', ts')" for k f w' ts'
  proof -
    have "attempt_body a ts0 w0 =
        Some (Next, clear_waiting (fold (sleep 5) (take n ts) V), drop n ts)"
      unfolding e assms(6,7)
      using wait_then_continue_full[of ?v ts "''checkpoint''"] h(1) sv assms(6) by simp
    then have "w' = clear_waiting (fold (sleep 5) (take n ts) V)" using h(4) by simp
    then show ?thesis
      using poll_seen_at_end[where n = n and ts = ts and k = k and r = "''checkpoint''" and w = ?v] h(1-3)
      unfolding assms(7) by simp
  qed
  show "attempt_body a ts0 w0 = None" if "length ts < n \<and> list_all calm ts"
    unfolding e using wait_then_continue_short[of ?v ts "''checkpoint''"] that sv assms(6)
    by simp
next
  assume i: "\<not> file_exists CHECKPOINT_FILE w \<and>
      invoke_opencode ts w = Some (Inr True, w1, ts1) \<and>
      \<not> file_exists DONE_FILE w1 \<and> \<not> file_exists BLOCKED_FILE w1 \<and>
      file_exists CHECKPOINT_FILE w1"
  let ?v = "w1\<lparr>fs := fs w1 - {CHECKPOINT_FILE}\<rparr>"
  have fr: "invocations w1 = invocations w + 1" "waits w1 = waits w"
    "sleep_seconds w1 = sleep_seconds w"
    using invoke_opencode_frame[of ts w True w1 ts1] i by simp_all
  have sv: "sleep_seconds ?v = sleep_seconds w" using fr by simp
  have "attempt_body a ts0 w0 = invoke_step ts w"
    using attempt_to_invoke[OF assms(1-5)] i by simp
  also have "\<dots> = after_invoke ts1 w1"
    using i by (simp add: invoke_step_ok)
  also have "\<dots> = wait_then_continue ''checkpoint'' ts1 ?v"
    using i by (simp add: after_invoke_def terminal_check_none remove_file_eq)
  finally show e: "attempt_body a ts0 w0 = wait_then_continue ''checkpoint'' ts1 ?v" .
  show "attempt_body a ts0 w0 \<noteq> None" if "n \<le> length ts1"
    unfolding e using wait_then_continue_returns[of ?v ts1 "''checkpoint''"] that fr assms(6)
    by simp
  show "f = Next" "invocations w' = invocations w + 1"
    "waits w' = waits w @ [(''checkpoint'', sleep_seconds w)]"
    "error_message w' = error_message w1" "\<not> is_waiting w'"
    if "attempt_body a ts0 w0 = Some (f, w', ts')" for f w' ts'
    using wait_then_continue_frame[of "''checkpoint''" ts1 ?v f w' ts'] that fr
    unfolding e by simp_all
  show "attempt_body a ts0 w0 =
      Some (Next, clear_waiting (fold (sleep 5) (take n ts1) V1), drop n ts1)"
    if "\<not> stop_requested w1 \<and> n \<le> length ts1 \<and> list_all calm (take n ts1)"
    unfolding e assms(6,8)
    using wait_then_continue_full[of ?v ts1 "''checkpoint''"] that sv assms(6) by simp
  show "is_waiting (fold (sleep 5) (take k ts1) V1)"
    "waiting_reason (fold (sleep 5) (take k ts1) V1) = ''checkpoint''"
    "waiting_duration (fold (sleep 5) (take k ts1) V1) = sleep_seconds w"
    if h: "\<not> stop_requested w1 \<and> n \<le> length ts1 \<and> list_all calm (take n ts1)" "k \<le> n" for k
  proof -
    have "list_all calm (take k ts1)" using h calm_prefix by blast
    from wait_shown[OF this, of "''checkpoint''" ?v]
    show "is_waiting (fold (sleep 5) (take k ts1) V1)"
      "waiting_reason (fold (sleep 5) (take k ts1) V1) = ''checkpoint''"
      "waiting_duration (fold (sleep 5) (take k ts1) V1) = sleep_seconds w"
      unfolding assms(8) using sv by simp_all
  qed
  show "get_waiting_info (fold (sleep 5) (take k ts1) V1) =
      (True, ''checkpoint'', max 0 (sleep_seconds w - int (k div 2)))"
    if h: "\<not> stop_requested w1 \<and> n \<le> length ts1 \<and> list_all calm (take n ts1)" "k \<le> n" for k
  proof -
    have "list_all calm (take k ts1)" using h calm_prefix by blast
    from wait_info[OF this, of "''checkpoint''" ?v] show ?thesis
      unfolding assms(8) using sv h by simp
  qed
  show "(status w1, True, ''checkpoint'', max 0 (sleep_seconds w - int (Suc k div 2)))
      \<in> set (seen w')"
    if h: "\<not> stop_requested w1 \<and> n \<le> length ts1 \<and> list_all calm (take n ts1)" "k < n"
      "ts1 ! k = [OpPoll]" "attempt_body a ts0 w0 = Some (f, w', ts')" for k f w' ts'
  proof -
    have "attempt_body a ts0 w0 =
        Some (Next, clear_waiting (fold (sleep 5) (take n ts1) V1), drop n ts1)"
      unfolding e assms(6,8)
      using wait_then_continue_full[of ?v ts1 "''checkpoint''"] h(1) sv assms(6) by simp
    then have "w' = clear_waiting (fold (sleep 5) (take n ts1) V1)" using h(4) by simp
    then show ?thesis
      using poll_seen_at_end[where n = n and ts = ts1 and k = k and r = "''checkpoint''" and w = ?v] h(1-3) sv
      unfolding assms(8) by simp
  qed
  show "attempt_body a ts0 w0 = None"
    if "\<not> stop_requested w1 \<and> length ts1 < n \<and> list_all calm ts1"
    unfolding e using wait_then_continue_short[of ?v ts1 "''checkpoint''"] that sv assms(6)
    by simp
qed


theorem checkpoint_consumed_witness:
  "file_exists CHECKPOINT_FILE c4_started \<and> sleep_seconds c4_started = 2 \<and>
   list_all calm [[OpPoll], [OpPause], [OpPoll], [FsCreate ''notes.md'']] \<and>
   (\<exists>w'. attempt_body 1 [[OpPoll], [OpPause], [OpPoll], [FsCreate ''notes.md''], [OpStop]] c4_started =
            Some (Next, w', [[OpStop]]) \<and>
      \<not> file_exists CHECKPOINT_FILE w' \<and> invocations w' = 0 \<and>
      waits w' = [(''checkpoint'', 2)] \<and> \<not> is_waiting w' \<and>
      seen w' = [(Running, True, ''checkpoint'', 2), (Running, True, ''checkpoint'', 1)]) \<and>
   get_waiting_info (fold (sleep 5) [[OpPoll], [OpPause], [OpPoll]]
      (waiting_state ''checkpoint''
        (c4_started\<lparr>current_attempt := 1, fs := fs c4_started - {CHECKPOINT_FILE}\<rparr>)))
     = (True, ''checkpoint'', 1) \<and>
   is_waiting (fold (sleep 5) [[OpPoll], [OpPause], [OpPoll]]
      (waiting_state ''checkpoint''
        (c4_started\<lparr>current_attempt := 1, fs := fs c4_started - {CHECKPOINT_FILE}\<rparr>))) \<and>
   waiting_reason (fold (sleep 5) [[OpPoll], [OpPause], [OpPoll]]
      (waiting_state ''checkpoint''
        (c4_started\<lparr>current_attempt := 1, fs := fs c4_started - {CHECKPOINT_FILE}\<rparr>)))
     = ''checkpoint'' \<and>
   waiting_duration (fold (sleep 5) [[OpPoll], [OpPause], [OpPoll]]
      (waiting_state ''checkpoint''
        (c4_started\<lparr>current_attempt := 1, fs := fs c4_started - {CHECKPOINT_FILE}\<rparr>))) = 2 \<and>
   attempt_body 1 [[OpPoll], [OpPause], [OpPoll]] c4_started = None \<and>
   (\<exists>w1. invoke_opencode [[FsCreate CHECKPOINT_FILE, ProcExit 7 0], [OpPoll], [], [], [OpPoll]]
             (c6_post\<lparr>current_attempt := 1\<rparr>) = Some (Inr True, w1, [[OpPoll], [], [], [OpPoll]]) \<and>
      file_exists CHECKPOINT_FILE w1 \<and> \<not> stop_requested w1) \<and>
   (\<exists>w'. attempt_body 1 [[FsCreate CHECKPOINT_FILE, ProcExit 7 0], [OpPoll], [], [], [OpPoll]] c6_post =
             Some (Next, w', []) \<and>
      \<not> file_exists CHECKPOINT_FILE w' \<and> invocations w' = 1 \<and>
      waits w' = [(''checkpoint'', 2)] \<and> error_message w' = None \<and> \<not> is_waiting w' \<and>
      seen w' = [(Running, True, ''checkpoint'', 2), (Running, True, ''checkpoint'', 0)]) \<and>
   attempt_body 1 [[FsCreate CHECKPOINT_FILE, ProcExit 7 0], [OpPoll], [], []] c6_post = None"
proof -
  let ?t0 = "[[OpPoll], [OpPause], [OpPoll], [FsCreate ''notes.md''], [OpStop]]"
  let ?t1 = "[[OpPoll], [OpPause], [OpPoll]]"
  let ?v = "c4_started\<lparr>current_attempt := 1\<rparr>"
  let ?ts = "[[FsCreate CHECKPOINT_FILE, ProcExit 7 0], [OpPoll], [], [], [OpPoll]]"
  let ?tr = "[[FsCreate CHECKPOINT_FILE, ProcExit 7 0], [OpPoll], [], []]"
  let ?u = "c6_post\<lparr>current_attempt := 1\<rparr>"
  have p: "pause_boundary ts ?v = Some (Next, ?v, ts)" for ts
    by (simp add: pause_boundary_def c4_started_def c6_pre_def c2_started_def init_def)
  have v: "\<not> stop_requested ?v" "\<not> file_exists STOP_FILE ?v" "\<not> file_exists DONE_FILE ?v"
    "\<not> file_exists BLOCKED_FILE ?v" "file_exists CHECKPOINT_FILE ?v"
    "waits ?v = []" "invocations ?v = 0" "sleep_seconds ?v = 2"
    by (simp_all add: c4_started_def c6_pre_def c2_started_def init_def env0_def
        file_exists_def file_names)
  have n: "nat (2 * sleep_seconds ?v) = 4" using v(8) by simp
  have calm0: "list_all calm [[OpPoll], [OpPause], [OpPoll], [FsCreate ''notes.md'']]"
    "list_all calm ?t1"
    by (simp_all add: calm_def)
  have fsv: "?v\<lparr>fs := fs ?v - {CHECKPOINT_FILE}\<rparr> =
      c4_started\<lparr>current_attempt := 1, fs := fs c4_started - {CHECKPOINT_FILE}\<rparr>"
    by simp
  note pre = checkpoint_consumed[OF p[of ?t0] v(1-4) n[symmetric] refl refl]
  note short = checkpoint_consumed[OF p[of ?t1] v(1-4) n[symmetric] refl refl]
  have pre_run: "\<exists>w'. attempt_body 1 ?t0 c4_started = Some (Next, w', [[OpStop]]) \<and>
      \<not> file_exists CHECKPOINT_FILE w' \<and>
      seen w' = [(Running, True, ''checkpoint'', 2), (Running, True, ''checkpoint'', 1)]"
    by (simp add: c4_started_def c6_pre_def c2_started_def run_simps get_waiting_info_def
        waiting_seconds_remaining_def)
  then obtain w' where a: "attempt_body 1 ?t0 c4_started = Some (Next, w', [[OpStop]])"
    and b: "\<not> file_exists CHECKPOINT_FILE w'"
    and b': "seen w' = [(Running, True, ''checkpoint'', 2), (Running, True, ''checkpoint'', 1)]"
    by blast
  have pre_obs: "invocations w' = 0 \<and> waits w' = [(''checkpoint'', 2)] \<and> \<not> is_waiting w'"
    using pre a v by simp
  have shown: "is_waiting (fold (sleep 5) ?t1
        (waiting_state ''checkpoint''
          (c4_started\<lparr>current_attempt := 1, fs := fs c4_started - {CHECKPOINT_FILE}\<rparr>))) \<and>
      waiting_reason (fold (sleep 5) ?t1
        (waiting_state ''checkpoint''
          (c4_started\<lparr>current_attempt := 1, fs := fs c4_started - {CHECKPOINT_FILE}\<rparr>)))
        = ''checkpoint'' \<and>
      waiting_duration (fold (sleep 5) ?t1
        (waiting_state ''checkpoint''
          (c4_started\<lparr>current_attempt := 1, fs := fs c4_started - {CHECKPOINT_FILE}\<rparr>))) = 2"
  proof -
    have "\<forall>k\<le>4. is_waiting (fold (sleep 5) (take k ?t0)
          (waiting_state ''checkpoint'' (?v\<lparr>fs := fs ?v - {CHECKPOINT_FILE}\<rparr>))) \<and>
        waiting_reason (fold (sleep 5) (take k ?t0)
          (waiting_state ''checkpoint'' (?v\<lparr>fs := fs ?v - {CHECKPOINT_FILE}\<rparr>)))
          = ''checkpoint'' \<and>
        waiting_duration (fold (sleep 5) (take k ?t0)
          (waiting_state ''checkpoint'' (?v\<lparr>fs := fs ?v - {CHECKPOINT_FILE}\<rparr>))) = 2"
      using pre v(5,8) calm0(1) by simp
    from this[rule_format, of 3] show ?thesis unfolding fsv by simp
  qed
  have info: "get_waiting_info (fold (sleep 5) ?t1
        (waiting_state ''checkpoint''
          (c4_started\<lparr>current_attempt := 1, fs := fs c4_started - {CHECKPOINT_FILE}\<rparr>)))
      = (True, ''checkpoint'', 1)"
  proof -
    have "\<forall>k\<le>4. get_waiting_info (fold (sleep 5) (take k ?t0)
          (waiting_state ''checkpoint'' (?v\<lparr>fs := fs ?v - {CHECKPOINT_FILE}\<rparr>))) =
        (True, ''checkpoint'', max 0 (2 - int (k div 2)))"
      using pre v(5,8) calm0(1) by simp
    from this[rule_format, of 3] show ?thesis unfolding fsv by simp
  qed
  have "length ([[OpPoll], [OpPause], [OpPoll]] :: tick list) < 4 \<and> list_all calm ?t1 \<longrightarrow> attempt_body 1 ?t1 c4_started = None"
    using short v(5) by blast
  then have s: "attempt_body 1 ?t1 c4_started = None"
    using calm0(2) by simp
  have q: "pause_boundary ts ?u = Some (Next, ?u, ts)" for ts
    by (simp add: pause_boundary_def c6_post_def c1_post_def c2_started_def init_def)
  have u: "\<not> stop_requested ?u" "\<not> file_exists STOP_FILE ?u" "\<not> file_exists DONE_FILE ?u"
    "\<not> file_exists BLOCKED_FILE ?u" "\<not> file_exists CHECKPOINT_FILE ?u"
    "waits ?u = []" "invocations ?u = 0" "sleep_seconds ?u = 2"
    by (simp_all add: c6_post_def c1_post_def c2_started_def init_def env0_def file_exists_def
        file_names)
  have m: "nat (2 * sleep_seconds ?u) = 4" using u(8) by simp
  have inv: "\<exists>w1. invoke_opencode ([FsCreate CHECKPOINT_FILE, ProcExit 7 0] # r) ?u =
        Some (Inr True, w1, r) \<and>
      \<not> file_exists DONE_FILE w1 \<and> \<not> file_exists BLOCKED_FILE w1 \<and>
      file_exists CHECKPOINT_FILE w1 \<and> error_message w1 = None \<and> \<not> stop_requested w1" for r
    by (cases r) (simp_all add: c6_post_def c1_post_def c2_started_def run_simps)
  obtain w1 where i: "invoke_opencode ?ts ?u = Some (Inr True, w1, [[OpPoll], [], [], [OpPoll]])"
    and w1: "\<not> file_exists DONE_FILE w1" "\<not> file_exists BLOCKED_FILE w1"
      "file_exists CHECKPOINT_FILE w1" "error_message w1 = None" "\<not> stop_requested w1"
    using inv[of "[[OpPoll], [], [], [OpPoll]]"] by blast
  obtain w2 where i2: "invoke_opencode ?tr ?u = Some (Inr True, w2, [[OpPoll], [], []])"
    and w2: "\<not> file_exists DONE_FILE w2" "\<not> file_exists BLOCKED_FILE w2"
      "file_exists CHECKPOINT_FILE w2" "\<not> stop_requested w2"
    using inv[of "[[OpPoll], [], []]"] by blast
  note post = checkpoint_consumed[OF q[of ?ts] u(1-4) m[symmetric] refl refl, where ?w1.0 = w1 and ?ts1.0 = "[[OpPoll], [], [], [OpPoll]]"]
  note post_short = checkpoint_consumed[OF q[of ?tr] u(1-4) m[symmetric] refl refl, where ?w1.0 = w2 and ?ts1.0 = "[[OpPoll], [], []]"]
  have post_run: "\<exists>w'. attempt_body 1 ?ts c6_post = Some (Next, w', []) \<and>
      \<not> file_exists CHECKPOINT_FILE w' \<and>
      seen w' = [(Running, True, ''checkpoint'', 2), (Running, True, ''checkpoint'', 0)]"
    by (simp add: c6_post_def c1_post_def c2_started_def run_simps get_waiting_info_def
        waiting_seconds_remaining_def)
  then obtain w'' where c: "attempt_body 1 ?ts c6_post = Some (Next, w'', [])"
    and d: "\<not> file_exists CHECKPOINT_FILE w''"
    and d': "seen w'' = [(Running, True, ''checkpoint'', 2), (Running, True, ''checkpoint'', 0)]"
    by blast
  have post_obs: "invocations w'' = 1 \<and> waits w'' = [(''checkpoint'', 2)] \<and>
      error_message w'' = None \<and> \<not> is_waiting w''"
    using post i w1 c u by simp
  have B: "\<not> file_exists CHECKPOINT_FILE ?u \<and>
      invoke_opencode ?tr ?u = Some (Inr True, w2, [[OpPoll], [], []]) \<and>
      \<not> file_exists DONE_FILE w2 \<and> \<not> file_exists BLOCKED_FILE w2 \<and>
      file_exists CHECKPOINT_FILE w2"
    by (intro conjI) (rule u(5) i2 w2(1) w2(2) w2(3))+
  note C = post_short[THEN conjunct2, THEN mp, OF B]
  have "\<not> stop_requested w2 \<and> length ([[OpPoll], [], []] :: tick list) < 4 \<and> list_all calm [[OpPoll], [], []] \<longrightarrow>
      attempt_body 1 ?tr c6_post = None"
    by (rule C[THEN conjunct2, THEN conjunct2, THEN conjunct2, THEN conjunct2])
  then have ps: "attempt_body 1 ?tr c6_post = None"
    using w2 by (simp add: calm_def)
  have base: "file_exists CHECKPOINT_FILE c4_started" "sleep_seconds c4_started = 2"
    using v by (simp_all add: file_exists_def)
  show ?thesis
    using base calm0(1) a b b' pre_obs info shown s i w1(3,5) c d d' post_obs ps by blast
qed

text \<open>
  C9. In every attempt whose invocation returned True and left neither the done, the
  blocked nor the checkpoint file (and no stop request), the loop sets the status to
  missing\_checkpoint and waits at the gate: through quiet ticks the status stays
  missing\_checkpoint, and a script of quiet ticks only never lets the attempt return. A
  stop request ends the attempt by returning with status stopped, and so does the "stop"
  decision. The "continue" decision sets the status to running and then waits with reason
  "cooldown" for \<^verbatim>\<open>sleep_seconds\<close>, after which the loop goes to the next attempt with
  this cooldown as the attempt's only wait and one Popen made. The cooldown is the waiting
  state of the runner: with \<^verbatim>\<open>n\<close> twice \<^verbatim>\<open>sleep_seconds\<close>, through \<^verbatim>\<open>n\<close> calm
  ticks the attempt sleeps exactly \<^verbatim>\<open>n\<close> times, before and after each of these sleeps
  the waiting flag is set with reason "cooldown", the configured delay as duration and
  the status running, the descriptor is cleared at the end, and on fewer than \<^verbatim>\<open>n\<close>
  calm ticks the attempt has not returned. After \<^verbatim>\<open>k\<close> of these sleeps
  \<^verbatim>\<open>get_waiting_info\<close> gives the flag, the reason "cooldown" and the whole seconds that
  remain of \<^verbatim>\<open>sleep_seconds\<close>, and every poll made during tick \<^verbatim>\<open>k\<close> of the
  cooldown is found in what the returned runner has shown: status running, waiting,
  "cooldown", and the seconds that remain after \<^verbatim>\<open>k + 1\<close> sleeps.
\<close>

theorem missing_checkpoint_gate_decisions:
  assumes "pause_boundary ts0 (w0\<lparr>current_attempt := a\<rparr>) = Some (Next, w, ts)"
    and "\<not> stop_requested w" and "\<not> file_exists STOP_FILE w"
    and "\<not> file_exists DONE_FILE w" and "\<not> file_exists BLOCKED_FILE w"
    and "\<not> file_exists CHECKPOINT_FILE w"
    and "invoke_opencode ts w = Some (Inr True, w1, ts1)"
    and "\<not> file_exists DONE_FILE w1" and "\<not> file_exists BLOCKED_FILE w1"
    and "\<not> file_exists CHECKPOINT_FILE w1"
    and "\<not> stop_requested w1"
    and "list_all quiet qs"
    and "g = fold (sleep 5) qs (enter_gate w1)"
    and "c = (sleep 5 [OpContinue] g)\<lparr>status := Running\<rparr>"
    and "C = waiting_state ''cooldown'' c"
    and "n = nat (2 * sleep_seconds w)"
  shows
    "attempt_body a ts0 w0 = missing_checkpoint_gate ts1 w1 \<and>
     status (enter_gate w1) = MissingCheckpoint \<and> status g = MissingCheckpoint \<and>
     missing_checkpoint_pause g \<and>
     (ts1 = qs \<longrightarrow> attempt_body a ts0 w0 = None) \<and>
     (\<forall>rest. ts1 = qs @ [OpStop] # rest \<longrightarrow>
        (\<exists>w'. attempt_body a ts0 w0 = Some (Return, w', rest) \<and> status w' = Stopped)) \<and>
     (\<forall>rest. ts1 = qs @ [OpStopMC] # rest \<longrightarrow>
        (\<exists>w'. attempt_body a ts0 w0 = Some (Return, w', rest) \<and> status w' = Stopped \<and>
              user_continue_decision w' = Some False)) \<and>
     (\<forall>rest. ts1 = qs @ [OpContinue] # rest \<longrightarrow>
        (\<exists>v. status v = Running \<and> \<not> missing_checkpoint_pause v \<and>
             user_continue_decision v = Some True \<and>
             attempt_body a ts0 w0 = wait_then_continue ''cooldown'' rest v) \<and>
        (nat (2 * sleep_seconds w) \<le> length rest \<longrightarrow> attempt_body a ts0 w0 \<noteq> None) \<and>
        (\<forall>f w' ts'. attempt_body a ts0 w0 = Some (f, w', ts') \<longrightarrow>
           f = Next \<and> waits w' = waits w @ [(''cooldown'', sleep_seconds w)] \<and>
           invocations w' = invocations w + 1 \<and> \<not> is_waiting w') \<and>
        attempt_body a ts0 w0 = wait_then_continue ''cooldown'' rest c \<and>
        status c = Running \<and>
        (n \<le> length rest \<and> list_all calm (take n rest) \<longrightarrow>
           attempt_body a ts0 w0 =
             Some (Next, clear_waiting (fold (sleep 5) (take n rest) C), drop n rest) \<and>
           (\<forall>k\<le>n. is_waiting (fold (sleep 5) (take k rest) C) \<and>
                  waiting_reason (fold (sleep 5) (take k rest) C) = ''cooldown'' \<and>
                  waiting_duration (fold (sleep 5) (take k rest) C) = sleep_seconds w \<and>
                  status (fold (sleep 5) (take k rest) C) = Running \<and>
                  get_waiting_info (fold (sleep 5) (take k rest) C) =
                    (True, ''cooldown'', max 0 (sleep_seconds w - int (k div 2)))) \<and>
           (\<forall>k<n. rest ! k = [OpPoll] \<longrightarrow>
              (\<forall>f w' ts'. attempt_body a ts0 w0 = Some (f, w', ts') \<longrightarrow>
                 (Running, True, ''cooldown'',
                  max 0 (sleep_seconds w - int (Suc k div 2))) \<in> set (seen w')))) \<and>
        (length rest < n \<and> list_all calm rest \<longrightarrow> attempt_body a ts0 w0 = None))"
proof -
  note q = assms(12,11)
  have fr: "invocations w1 = invocations w + 1" "waits w1 = waits w"
    "sleep_seconds w1 = sleep_seconds w"
    using invoke_opencode_frame[OF assms(7)] by simp_all
  have "attempt_body a ts0 w0 = invoke_step ts w"
    by (rule attempt_to_invoke[OF assms(1-6)])
  also have "\<dots> = after_invoke ts1 w1"
    by (rule invoke_step_ok[OF assms(7)])
  also have "\<dots> = missing_checkpoint_gate ts1 w1"
    using assms(8-10) by (simp add: after_invoke_def terminal_check_none)
  finally have e: "attempt_body a ts0 w0 = missing_checkpoint_gate ts1 w1" .
  have g: "status g = MissingCheckpoint" "missing_checkpoint_pause g"
    unfolding assms(13) by (rule gate_state[OF q])+
  have blocked: "attempt_body a ts0 w0 = None" if "ts1 = qs"
    unfolding e that by (rule gate_blocks[OF q])
  have stopped: "\<exists>w'. attempt_body a ts0 w0 = Some (Return, w', rest) \<and> status w' = Stopped"
    if "ts1 = qs @ [OpStop] # rest" for rest
    unfolding e that gate_stop_request[OF q] by simp
  have declined: "\<exists>w'. attempt_body a ts0 w0 = Some (Return, w', rest) \<and> status w' = Stopped \<and>
      user_continue_decision w' = Some False"
    if "ts1 = qs @ [OpStopMC] # rest" for rest
    unfolding e that gate_stop_decision[OF q]
    by (simp add: stop_after_missing_checkpoint_def)
  have continued: "(\<exists>v. status v = Running \<and> \<not> missing_checkpoint_pause v \<and>
             user_continue_decision v = Some True \<and>
             attempt_body a ts0 w0 = wait_then_continue ''cooldown'' rest v) \<and>
        (nat (2 * sleep_seconds w) \<le> length rest \<longrightarrow> attempt_body a ts0 w0 \<noteq> None) \<and>
        (\<forall>f w' ts'. attempt_body a ts0 w0 = Some (f, w', ts') \<longrightarrow>
           f = Next \<and> waits w' = waits w @ [(''cooldown'', sleep_seconds w)] \<and>
           invocations w' = invocations w + 1 \<and> \<not> is_waiting w') \<and>
        attempt_body a ts0 w0 = wait_then_continue ''cooldown'' rest c \<and>
        status c = Running \<and>
        (n \<le> length rest \<and> list_all calm (take n rest) \<longrightarrow>
           attempt_body a ts0 w0 =
             Some (Next, clear_waiting (fold (sleep 5) (take n rest) C), drop n rest) \<and>
           (\<forall>k\<le>n. is_waiting (fold (sleep 5) (take k rest) C) \<and>
                  waiting_reason (fold (sleep 5) (take k rest) C) = ''cooldown'' \<and>
                  waiting_duration (fold (sleep 5) (take k rest) C) = sleep_seconds w \<and>
                  status (fold (sleep 5) (take k rest) C) = Running \<and>
                  get_waiting_info (fold (sleep 5) (take k rest) C) =
                    (True, ''cooldown'', max 0 (sleep_seconds w - int (k div 2)))) \<and>
           (\<forall>k<n. rest ! k = [OpPoll] \<longrightarrow>
              (\<forall>f w' ts'. attempt_body a ts0 w0 = Some (f, w', ts') \<longrightarrow>
                 (Running, True, ''cooldown'',
                  max 0 (sleep_seconds w - int (Suc k div 2))) \<in> set (seen w')))) \<and>
        (length rest < n \<and> list_all calm rest \<longrightarrow> attempt_body a ts0 w0 = None)"
    if t: "ts1 = qs @ [OpContinue] # rest" for rest
  proof -
    let ?g = "fold (sleep 5) qs (enter_gate w1)"
    let ?v = "(continue_after_missing_checkpoint (?g\<lparr>clock := clock ?g + 5\<rparr>))\<lparr>status := Running\<rparr>"
    have c: "attempt_body a ts0 w0 = wait_then_continue ''cooldown'' rest ?v"
      unfolding e t by (rule gate_continue_decision[OF q])
    have v: "status ?v = Running" "\<not> missing_checkpoint_pause ?v"
      "user_continue_decision ?v = Some True"
      by (simp_all add: continue_after_missing_checkpoint_def)
    have vf: "invocations ?v = invocations w + 1" "waits ?v = waits w"
      "sleep_seconds ?v = sleep_seconds w"
      using sleeps_frame[of 5 qs "enter_gate w1"] fr
      by (simp_all add: continue_after_missing_checkpoint_def enter_gate_def)
    have r: "attempt_body a ts0 w0 \<noteq> None" if "nat (2 * sleep_seconds w) \<le> length rest"
      unfolding c using wait_then_continue_returns[of ?v rest "''cooldown''"] that vf(3) by simp
    have o: "f = Next \<and> waits w' = waits w @ [(''cooldown'', sleep_seconds w)] \<and>
        invocations w' = invocations w + 1 \<and> \<not> is_waiting w'"
      if "attempt_body a ts0 w0 = Some (f, w', ts')" for f w' ts'
      using wait_then_continue_frame[of "''cooldown''" rest ?v f w' ts'] that vf
      unfolding c by simp
    have cv: "c = ?v"
      unfolding assms(14) assms(13) by (simp add: sleep_def)
    have ns: "\<not> stop_requested ?v"
      using gate_state(3)[OF q] by (simp add: continue_after_missing_checkpoint_def)
    have full: "attempt_body a ts0 w0 =
        Some (Next, clear_waiting (fold (sleep 5) (take n rest) C), drop n rest)"
      if "n \<le> length rest \<and> list_all calm (take n rest)"
      unfolding c assms(15,16) cv
      using wait_then_continue_full[OF ns, of rest "''cooldown''"] that vf(3) assms(16) by simp
    have shown: "is_waiting (fold (sleep 5) (take k rest) C) \<and>
        waiting_reason (fold (sleep 5) (take k rest) C) = ''cooldown'' \<and>
        waiting_duration (fold (sleep 5) (take k rest) C) = sleep_seconds w \<and>
        status (fold (sleep 5) (take k rest) C) = Running \<and>
        get_waiting_info (fold (sleep 5) (take k rest) C) =
          (True, ''cooldown'', max 0 (sleep_seconds w - int (k div 2)))"
      if h: "n \<le> length rest \<and> list_all calm (take n rest)" "k \<le> n" for k
    proof -
      have ck: "list_all calm (take k rest)" using h calm_prefix by blast
      have kl: "k \<le> length rest" using h by simp
      from wait_shown[OF ck, of "''cooldown''" ?v]
        wait_info[OF ck kl, where r = "''cooldown''" and w = ?v]
      show ?thesis
        unfolding assms(15) cv using vf(3) v(1) by simp
    qed
    have polled: "(Running, True, ''cooldown'', max 0 (sleep_seconds w - int (Suc k div 2)))
        \<in> set (seen w')"
      if h: "n \<le> length rest \<and> list_all calm (take n rest)" "k < n" "rest ! k = [OpPoll]"
        "attempt_body a ts0 w0 = Some (f, w', ts')" for k f w' ts'
    proof -
      have "w' = clear_waiting (fold (sleep 5) (take n rest) C)"
        using full[OF h(1)] h(4) by simp
      then show ?thesis
        using poll_seen_at_end[where n = n and ts = rest and k = k and r = "''cooldown''"
            and w = ?v] h(1-3) vf(3) v(1)
        unfolding assms(15) cv by simp
    qed
    have short: "attempt_body a ts0 w0 = None" if "length rest < n \<and> list_all calm rest"
      unfolding c using wait_then_continue_short[OF ns, of rest "''cooldown''"] that vf(3)
        assms(16) by simp
    have c': "attempt_body a ts0 w0 = wait_then_continue ''cooldown'' rest c"
      unfolding cv by (rule c)
    have sc: "status c = Running" unfolding cv by (rule v(1))
    have part1: "\<exists>v. status v = Running \<and> \<not> missing_checkpoint_pause v \<and>
             user_continue_decision v = Some True \<and>
             attempt_body a ts0 w0 = wait_then_continue ''cooldown'' rest v"
      using c v by blast
    show ?thesis
      using part1 r o c' sc full shown polled short by blast
  qed
  have "status (enter_gate w1) = MissingCheckpoint" by (simp add: enter_gate_def)
  then show ?thesis
    using e g blocked stopped declined continued by blast
qed



theorem missing_checkpoint_gate_decisions_witness:
  "list_all quiet [[OpPoll], [OpPause]] \<and>
   attempt_body 1 [[ProcExit 7 0], [OpPoll], [OpPause]] c6_post = None \<and>
   (\<exists>w'. attempt_body 1 [[ProcExit 7 0], [OpPoll], [OpPause], [OpStop], [OpResume]] c6_post =
            Some (Return, w', [[OpResume]]) \<and> status w' = Stopped) \<and>
   (\<exists>w'. attempt_body 1 [[ProcExit 7 0], [OpPoll], [OpPause], [OpStopMC], [OpResume]] c6_post =
            Some (Return, w', [[OpResume]]) \<and> status w' = Stopped \<and>
          user_continue_decision w' = Some False) \<and>
   (\<exists>w'. attempt_body 1
            [[ProcExit 7 0], [OpPoll], [OpPause], [OpContinue], [OpPoll], [OpPause], [], [OpPoll], [OpResume]]
            c6_post = Some (Next, w', [[OpResume]]) \<and> status w' = Running \<and>
          waits w' = [(''cooldown'', 2)] \<and> invocations w' = 1 \<and> \<not> is_waiting w' \<and>
          seen w' = [(MissingCheckpoint, False, [], 0), (Running, True, ''cooldown'', 2),
                     (Running, True, ''cooldown'', 0)]) \<and>
   (\<exists>w1. invoke_opencode
            [[ProcExit 7 0], [OpPoll], [OpPause], [OpContinue], [OpPoll], [OpPause], [], [OpPoll], [OpResume]]
            (c6_post\<lparr>current_attempt := 1\<rparr>) =
            Some (Inr True, w1, [[OpPoll], [OpPause], [OpContinue], [OpPoll], [OpPause], [], [OpPoll], [OpResume]]) \<and>
      is_waiting (fold (sleep 5) [[OpPoll], [OpPause], []]
        (waiting_state ''cooldown''
          ((sleep 5 [OpContinue] (fold (sleep 5) [[OpPoll], [OpPause]] (enter_gate w1)))
             \<lparr>status := Running\<rparr>))) \<and>
      waiting_reason (fold (sleep 5) [[OpPoll], [OpPause], []]
        (waiting_state ''cooldown''
          ((sleep 5 [OpContinue] (fold (sleep 5) [[OpPoll], [OpPause]] (enter_gate w1)))
             \<lparr>status := Running\<rparr>))) = ''cooldown'' \<and>
      waiting_duration (fold (sleep 5) [[OpPoll], [OpPause], []]
        (waiting_state ''cooldown''
          ((sleep 5 [OpContinue] (fold (sleep 5) [[OpPoll], [OpPause]] (enter_gate w1)))
             \<lparr>status := Running\<rparr>))) = 2 \<and>
      status (fold (sleep 5) [[OpPoll], [OpPause], []]
        (waiting_state ''cooldown''
          ((sleep 5 [OpContinue] (fold (sleep 5) [[OpPoll], [OpPause]] (enter_gate w1)))
             \<lparr>status := Running\<rparr>))) = Running \<and>
      get_waiting_info (fold (sleep 5) [[OpPoll], [OpPause], []]
        (waiting_state ''cooldown''
          ((sleep 5 [OpContinue] (fold (sleep 5) [[OpPoll], [OpPause]] (enter_gate w1)))
             \<lparr>status := Running\<rparr>))) = (True, ''cooldown'', 1)) \<and>
   attempt_body 1 [[ProcExit 7 0], [OpPoll], [OpPause], [OpContinue], [OpPoll], [OpPause], []] c6_post = None"
proof -
  let ?u = "c6_post\<lparr>current_attempt := 1\<rparr>"
  let ?qs = "[[OpPoll], [OpPause]] :: tick list"
  have q: "list_all quiet ?qs" by (simp add: quiet_def)
  have p: "pause_boundary ts ?u = Some (Next, ?u, ts)" for ts
    by (simp add: pause_boundary_def c6_post_def c1_post_def c2_started_def init_def)
  have u: "\<not> stop_requested ?u" "\<not> file_exists STOP_FILE ?u" "\<not> file_exists DONE_FILE ?u"
    "\<not> file_exists BLOCKED_FILE ?u" "\<not> file_exists CHECKPOINT_FILE ?u"
    "waits ?u = []" "invocations ?u = 0" "sleep_seconds ?u = 2"
    by (simp_all add: c6_post_def c1_post_def c2_started_def init_def env0_def file_exists_def
        file_names)
  have m: "4 = nat (2 * sleep_seconds ?u)" using u(8) by simp
  have inv: "\<exists>w1. invoke_opencode ([ProcExit 7 0] # r) ?u = Some (Inr True, w1, r) \<and>
      \<not> file_exists DONE_FILE w1 \<and> \<not> file_exists BLOCKED_FILE w1 \<and>
      \<not> file_exists CHECKPOINT_FILE w1 \<and> \<not> stop_requested w1" for r
    by (cases r) (simp_all add: c6_post_def c1_post_def c2_started_def run_simps)
  have s1: "attempt_body 1 ([ProcExit 7 0] # ?qs) c6_post = None"
  proof -
    obtain w1 where i: "invoke_opencode ([ProcExit 7 0] # ?qs) ?u = Some (Inr True, w1, ?qs)"
      and w1: "\<not> file_exists DONE_FILE w1" "\<not> file_exists BLOCKED_FILE w1"
        "\<not> file_exists CHECKPOINT_FILE w1" "\<not> stop_requested w1"
      using inv[of ?qs] by blast
    note T = missing_checkpoint_gate_decisions[OF p u(1-5) i w1 q refl refl refl m]
    show ?thesis
      by (rule T[THEN conjunct2, THEN conjunct2, THEN conjunct2, THEN conjunct2, THEN conjunct1, THEN mp, OF refl])
  qed
  have s2: "\<exists>w'. attempt_body 1 ([ProcExit 7 0] # ?qs @ [OpStop] # [[OpResume]]) c6_post =
            Some (Return, w', [[OpResume]]) \<and> status w' = Stopped"
  proof -
    obtain w1 where i: "invoke_opencode ([ProcExit 7 0] # ?qs @ [OpStop] # [[OpResume]]) ?u =
        Some (Inr True, w1, ?qs @ [OpStop] # [[OpResume]])"
      and w1: "\<not> file_exists DONE_FILE w1" "\<not> file_exists BLOCKED_FILE w1"
        "\<not> file_exists CHECKPOINT_FILE w1" "\<not> stop_requested w1"
      using inv[of "?qs @ [OpStop] # [[OpResume]]"] by blast
    note T = missing_checkpoint_gate_decisions[OF p u(1-5) i w1 q refl refl refl m]
    show ?thesis
      by (rule T[THEN conjunct2, THEN conjunct2, THEN conjunct2, THEN conjunct2, THEN conjunct2, THEN conjunct1, THEN spec, THEN mp, OF refl])
  qed
  have s3: "\<exists>w'. attempt_body 1 ([ProcExit 7 0] # ?qs @ [OpStopMC] # [[OpResume]]) c6_post =
            Some (Return, w', [[OpResume]]) \<and> status w' = Stopped \<and>
            user_continue_decision w' = Some False"
  proof -
    obtain w1 where i: "invoke_opencode ([ProcExit 7 0] # ?qs @ [OpStopMC] # [[OpResume]]) ?u =
        Some (Inr True, w1, ?qs @ [OpStopMC] # [[OpResume]])"
      and w1: "\<not> file_exists DONE_FILE w1" "\<not> file_exists BLOCKED_FILE w1"
        "\<not> file_exists CHECKPOINT_FILE w1" "\<not> stop_requested w1"
      using inv[of "?qs @ [OpStopMC] # [[OpResume]]"] by blast
    note T = missing_checkpoint_gate_decisions[OF p u(1-5) i w1 q refl refl refl m]
    show ?thesis
      by (rule T[THEN conjunct2, THEN conjunct2, THEN conjunct2, THEN conjunct2, THEN conjunct2, THEN conjunct2, THEN conjunct1, THEN spec, THEN mp, OF refl])
  qed
  let ?r4 = "[[OpPoll], [OpPause], [], [OpPoll], [OpResume]] :: tick list"
  let ?t4 = "[ProcExit 7 0] # ?qs @ [OpContinue] # ?r4"
  have run4: "\<exists>w'. attempt_body 1 ?t4 c6_post = Some (Next, w', [[OpResume]]) \<and>
      status w' = Running \<and>
      seen w' = [(MissingCheckpoint, False, [], 0), (Running, True, ''cooldown'', 2),
                 (Running, True, ''cooldown'', 0)]"
    by (simp add: c6_post_def c1_post_def c2_started_def run_simps get_waiting_info_def
        waiting_seconds_remaining_def)
  then obtain w4 where a4: "attempt_body 1 ?t4 c6_post = Some (Next, w4, [[OpResume]])"
    and b4: "status w4 = Running"
    and c4: "seen w4 = [(MissingCheckpoint, False, [], 0), (Running, True, ''cooldown'', 2),
                 (Running, True, ''cooldown'', 0)]"
    by blast
  obtain w1 where i: "invoke_opencode ?t4 ?u = Some (Inr True, w1, ?qs @ [OpContinue] # ?r4)"
    and w1: "\<not> file_exists DONE_FILE w1" "\<not> file_exists BLOCKED_FILE w1"
      "\<not> file_exists CHECKPOINT_FILE w1" "\<not> stop_requested w1"
    using inv[of "?qs @ [OpContinue] # ?r4"] by blast
  note t4 = missing_checkpoint_gate_decisions[OF p u(1-5) i w1 q refl refl refl m]
  let ?C = "waiting_state ''cooldown''
      ((sleep 5 [OpContinue] (fold (sleep 5) ?qs (enter_gate w1)))\<lparr>status := Running\<rparr>)"
  note P4 = t4[THEN conjunct2, THEN conjunct2, THEN conjunct2, THEN conjunct2, THEN conjunct2, THEN conjunct2, THEN conjunct2, THEN spec, THEN mp, OF refl]
  note k4 = P4[THEN conjunct2, THEN conjunct2, THEN conjunct1]
  have s4: "waits w4 = [(''cooldown'', 2)] \<and> invocations w4 = 1 \<and> \<not> is_waiting w4"
    using k4 a4 u(6-8) by simp
  have cm: "4 \<le> length ?r4 \<and> list_all calm (take 4 ?r4)"
    by (simp add: calm_def)
  have "\<forall>k\<le>4. is_waiting (fold (sleep 5) (take k ?r4) ?C) \<and>
          waiting_reason (fold (sleep 5) (take k ?r4) ?C) = ''cooldown'' \<and>
          waiting_duration (fold (sleep 5) (take k ?r4) ?C) = sleep_seconds ?u \<and>
          status (fold (sleep 5) (take k ?r4) ?C) = Running \<and>
          get_waiting_info (fold (sleep 5) (take k ?r4) ?C) =
            (True, ''cooldown'', max 0 (sleep_seconds ?u - int (k div 2)))"
    by (rule P4[THEN conjunct2, THEN conjunct2, THEN conjunct2, THEN conjunct2, THEN conjunct2, THEN conjunct1, THEN mp, OF cm, THEN conjunct2, THEN conjunct1])
  from this[rule_format, of 3]
  have sh: "is_waiting (fold (sleep 5) [[OpPoll], [OpPause], []] ?C) \<and>
      waiting_reason (fold (sleep 5) [[OpPoll], [OpPause], []] ?C) = ''cooldown'' \<and>
      waiting_duration (fold (sleep 5) [[OpPoll], [OpPause], []] ?C) = 2 \<and>
      status (fold (sleep 5) [[OpPoll], [OpPause], []] ?C) = Running \<and>
      get_waiting_info (fold (sleep 5) [[OpPoll], [OpPause], []] ?C) = (True, ''cooldown'', 1)"
    using u(8) by simp
  let ?r5 = "[[OpPoll], [OpPause], []] :: tick list"
  have s5: "attempt_body 1 ([ProcExit 7 0] # ?qs @ [OpContinue] # ?r5) c6_post = None"
  proof -
    obtain w5 where i5: "invoke_opencode ([ProcExit 7 0] # ?qs @ [OpContinue] # ?r5) ?u =
        Some (Inr True, w5, ?qs @ [OpContinue] # ?r5)"
      and w5: "\<not> file_exists DONE_FILE w5" "\<not> file_exists BLOCKED_FILE w5"
        "\<not> file_exists CHECKPOINT_FILE w5" "\<not> stop_requested w5"
      using inv[of "?qs @ [OpContinue] # ?r5"] by blast
    have "length ?r5 < 4 \<and> list_all calm ?r5 \<longrightarrow>
        attempt_body 1 ([ProcExit 7 0] # ?qs @ [OpContinue] # ?r5) c6_post = None"
      by (rule missing_checkpoint_gate_decisions[OF p u(1-5) i5 w5 q refl refl refl m,
          THEN conjunct2, THEN conjunct2, THEN conjunct2, THEN conjunct2, THEN conjunct2, THEN conjunct2, THEN conjunct2, THEN spec, THEN mp, OF refl,
          THEN conjunct2, THEN conjunct2, THEN conjunct2, THEN conjunct2, THEN conjunct2, THEN conjunct2])
    then show ?thesis by (simp add: calm_def)
  qed
  show ?thesis
    using q s1 s2 s3 a4 b4 c4 s4 i sh s5 by auto
qed

text \<open>
  C3 (as amended). Whenever the \<^verbatim>\<open>for\<close> loop runs through all attempts of
  \<^verbatim>\<open>range(1, max_attempts + 1)\<close> without returning, the run ends with status failed
  and the error message "Max attempts reached" (with a capital M), and the attempt counter
  stands at \<^verbatim>\<open>max_attempts\<close> when that is at least 1.
\<close>

theorem exhausted_attempts_fail:
  assumes "file_exists PIN_SPEC w" and "prepare w = Inr w1"
    and "for_attempts [1..max_attempts w] ts w1 = Some (Next, w2, ts2)"
  shows "run_loop ts w =
           Some (w2\<lparr>status := Failed, error_message := Some ''Max attempts reached''\<rparr>, ts2) \<and>
         (1 \<le> max_attempts w \<longrightarrow> current_attempt w2 = max_attempts w)"
proof -
  have m: "max_attempts w1 = max_attempts w"
    using assms(2) by (auto simp: prepare_cases split: if_splits)
  have r: "run_loop ts w =
      Some (w2\<lparr>status := Failed, error_message := Some ''Max attempts reached''\<rparr>, ts2)"
    using assms by (simp add: run_loop_def m finish_def)
  have c: "current_attempt w2 = max_attempts w" if "1 \<le> max_attempts w"
  proof -
    have "[1..max_attempts w] \<noteq> []" using that by simp
    from for_attempts_exhausted[OF assms(3) this] show ?thesis
      using that by (simp add: last_upto)
  qed
  show ?thesis using r c by simp
qed

theorem exhausted_attempts_fail_witness:
  "file_exists PIN_SPEC c3_started \<and> max_attempts c3_started = 2 \<and>
   (\<exists>w1 w2. prepare c3_started = Inr w1 \<and>
      for_attempts [1..max_attempts c3_started] [] w1 = Some (Next, w2, []) \<and>
      run_loop [] c3_started =
        Some (w2\<lparr>status := Failed, error_message := Some ''Max attempts reached''\<rparr>, []) \<and>
      current_attempt w2 = 2 \<and> invocations w2 = 2 \<and>
      waits w2 = [(''backoff'', 0), (''backoff'', 0)])"
proof -
  have a: "file_exists PIN_SPEC c3_started" "max_attempts c3_started = 2"
    by (simp_all add: c3_started_def c2_started_def init_def env0_def file_exists_def)
  have "\<exists>w1. prepare c3_started = Inr w1 \<and>
      (\<exists>w2. for_attempts [1..max_attempts c3_started] [] w1 = Some (Next, w2, []) \<and>
        invocations w2 = 2 \<and> waits w2 = [(''backoff'', 0), (''backoff'', 0)])"
    by (simp add: c3_started_def c2_started_def run_simps)
  then obtain w1 w2 where p: "prepare c3_started = Inr w1"
    and f: "for_attempts [1..max_attempts c3_started] [] w1 = Some (Next, w2, [])"
    and o: "invocations w2 = 2" "waits w2 = [(''backoff'', 0), (''backoff'', 0)]"
    by blast
  show ?thesis
    using exhausted_attempts_fail[OF a(1) p f] a p f o by auto
qed


text \<open>C3 as stated fails: after two failed invocations of two the message is
  "Max attempts reached", which is not the string "max attempts reached".\<close>

theorem max_attempts_message_counterexample:
  "map_option (status \<circ> fst) (run_loop [] c3_started) = Some Failed \<and>
   map_option (current_attempt \<circ> fst) (run_loop [] c3_started) = Some 2 \<and>
   map_option (error_message \<circ> fst) (run_loop [] c3_started) =
     Some (Some ''Max attempts reached'') \<and>
   map_option (error_message \<circ> fst) (run_loop [] c3_started) \<noteq>
     Some (Some ''max attempts reached'')"
  by (simp add: c3_started_def c2_started_def run_simps)


text \<open>
  C4 (the code at the failing input). A runner of one attempt finds the checkpoint file and
  waits; \<^verbatim>\<open>stop\<close> arrives during the first half second. The wait ends after that one
  tick, but the attempt was the last, so lines 1147-1150 end the run as failed with
  "Max attempts reached" and not as stopped. With a second attempt left, the same script
  ends as stopped.
\<close>

theorem stop_during_final_wait_fails:
  "max_attempts c4_started = 1 \<and> file_exists CHECKPOINT_FILE c4_started \<and>
   map_option (status \<circ> fst) (run_loop [[OpStop], [], [], []] c4_started) = Some Failed \<and>
   map_option (error_message \<circ> fst) (run_loop [[OpStop], [], [], []] c4_started) =
     Some (Some ''Max attempts reached'') \<and>
   map_option (stop_requested \<circ> fst) (run_loop [[OpStop], [], [], []] c4_started) = Some True \<and>
   map_option (waits \<circ> fst) (run_loop [[OpStop], [], [], []] c4_started) =
     Some [(''checkpoint'', 2)] \<and>
   map_option snd (run_loop [[OpStop], [], [], []] c4_started) = Some [[], [], []] \<and>
   map_option (status \<circ> fst)
     (run_loop [[OpStop], [], [], []] (c4_started\<lparr>max_attempts := 2\<rparr>)) = Some Stopped"
  by (simp add: c4_started_def c6_pre_def c2_started_def run_simps)

end
